theory Spec2Isabelle
  imports Main "HOL-Library.AList"
begin

section \<open>Values, errors and the parse-scoped state of \<open>parser.py\<close>\<close>

text \<open>
  The grammar actions of \<open>parser.py\<close> only ever apply \<open>isinstance\<close>, \<open>str\<close> and string
  formatting to a token value. A Python \<open>float\<close> is therefore represented by the text
  \<open>str\<close> gives for it; an \<open>int\<close> is an unbounded integer; a \<open>str\<close> is a list of
  characters with code points below 256 (the pseudo-language is ASCII).
\<close>

datatype pyval = PyInt int | PyFloat string | PyStr string

datatype error =
    MissingTypeError string
  | IndexError
  | KeyError string
  | ProviderError string

text \<open>
  The registered callback \<open>type_provider(var, valid)\<close>: it returns a string or raises.
\<close>

type_synonym provider = "string \<Rightarrow> string list \<Rightarrow> error + string"

text \<open>
  The module globals \<open>symbol_table\<close> (a dict, which iterates in insertion order),
  \<open>has_return\<close> and \<open>type_provider\<close>. The field \<open>oracle_calls\<close> is not in the source:
  it records, in order, the names under which the provider has been called and
  answered, so that statements about which queries a parse makes can be written down.
\<close>

record pstate =
  symbol_table :: "(string \<times> string) list"
  has_return :: bool
  type_provider :: "provider option"
  oracle_calls :: "string list"

definition valid_dtypes :: "string list" where
  "valid_dtypes = [''int'', ''float'', ''string'', ''long'', ''char'', ''array'', ''vector'']"

definition return_key :: string where
  "return_key = ''__return_type__''"

subsection \<open>Python string helpers\<close>

definition dquote :: char where
  "dquote = CHR 0x22"

definition squote :: char where
  "squote = CHR 0x27"

text \<open>\<open>str.isspace\<close> on one character, for code points below 256.\<close>

definition isspace :: "char \<Rightarrow> bool" where
  "isspace c = (of_char c \<in> {9, 10, 11, 12, 13, 28, 29, 30, 31, 32, 133, 160 :: nat})"

definition strip :: "string \<Rightarrow> string" where
  "strip t = rev (dropWhile isspace (rev (dropWhile isspace t)))"

definition isdigit :: "char \<Rightarrow> bool" where
  "isdigit c = (48 \<le> (of_char c :: nat) \<and> (of_char c :: nat) \<le> 57)"

text \<open>The first character of a Python identifier (\<open>XID_Start\<close> or underscore), below 256.\<close>

definition xid_start :: "char \<Rightarrow> bool" where
  "xid_start c = (let n = (of_char c :: nat) in
     (65 \<le> n \<and> n \<le> 90) \<or> (97 \<le> n \<and> n \<le> 122) \<or> n = 95 \<or>
     n = 170 \<or> n = 181 \<or> n = 186 \<or>
     (192 \<le> n \<and> n \<le> 214) \<or> (216 \<le> n \<and> n \<le> 246) \<or> 248 \<le> n)"

definition xid_continue :: "char \<Rightarrow> bool" where
  "xid_continue c = (xid_start c \<or> isdigit c \<or> (of_char c :: nat) = 183)"

definition isidentifier :: "string \<Rightarrow> bool" where
  "isidentifier t = (case t of [] \<Rightarrow> False | c # cs \<Rightarrow> xid_start c \<and> list_all xid_continue cs)"

definition startswith :: "string \<Rightarrow> char \<Rightarrow> bool" where
  "startswith t c = (case t of [] \<Rightarrow> False | d # _ \<Rightarrow> d = c)"

definition endswith :: "string \<Rightarrow> char \<Rightarrow> bool" where
  "endswith t c = startswith (rev t) c"

text \<open>\<open>str\<close> of a non-negative integer, digit by digit, and of any integer.\<close>

fun str_nat :: "nat \<Rightarrow> string" where
  "str_nat n = (if n < 10 then [char_of (48 + n)]
                else str_nat (n div 10) @ [char_of (48 + n mod 10)])"

declare str_nat.simps [simp del]

definition str_int :: "int \<Rightarrow> string" where
  "str_int i = (if i < 0 then CHR ''-'' # str_nat (nat (- i)) else str_nat (nat i))"

fun str :: "pyval \<Rightarrow> string" where
  "str (PyInt i) = str_int i"
| "str (PyFloat f) = f"
| "str (PyStr t) = t"

text \<open>\<open>sep.join(parts)\<close>.\<close>

fun join :: "string \<Rightarrow> string list \<Rightarrow> string" where
  "join sep [] = []"
| "join sep [p] = p"
| "join sep (p # q # ps) = p @ sep @ join sep (q # ps)"

definition spaces :: "nat \<Rightarrow> string" where
  "spaces n = replicate n CHR '' ''"

section \<open>Type resolution\<close>

text \<open>\<open>infer_type\<close>: \<open>None\<close> is "no inference available".\<close>

fun infer_type :: "pyval \<Rightarrow> string option" where
  "infer_type (PyInt i) = Some ''int''"
| "infer_type (PyFloat f) = Some ''float''"
| "infer_type (PyStr t) =
     (if startswith t dquote \<and> endswith t dquote then Some ''string''
      else if startswith t squote \<and> endswith t squote then Some ''char''
      else None)"

text \<open>
  \<open>ask_type\<close>: raise when no provider is registered; otherwise call it, strip the
  answer, and raise unless the stripped answer is one of \<open>valid_dtypes\<close>.
\<close>

definition ask_type :: "string \<Rightarrow> pstate \<Rightarrow> error + string \<times> pstate" where
  "ask_type var s =
     (case type_provider s of
        None \<Rightarrow> Inl (MissingTypeError var)
      | Some fn \<Rightarrow>
          (case fn var valid_dtypes of
             Inl e \<Rightarrow> Inl e
           | Inr answer \<Rightarrow>
               (let dtype = strip answer in
                if dtype \<notin> set valid_dtypes then Inl (MissingTypeError var)
                else Inr (dtype, s\<lparr>oracle_calls := oracle_calls s @ [var]\<rparr>))))"

text \<open>
  \<open>handle_assignment\<close>. The three-way test on the value's Python type is the case
  distinction on \<open>pyval\<close>; \<open>symbol_table[var] = symbol_table[value]\<close> reads the entry
  that is either already there or has just been stored from the provider's answer.
\<close>

definition handle_assignment :: "string \<Rightarrow> pyval \<Rightarrow> bool \<Rightarrow> pstate \<Rightarrow> error + string \<times> pstate" where
  "handle_assignment var val is_expression s =
     (case val of
        PyStr t \<Rightarrow>
          (if \<not> is_expression \<and> isidentifier t then
             (case map_of (symbol_table s) t of
                Some ty \<Rightarrow>
                  Inr (str val, s\<lparr>symbol_table := AList.update var ty (symbol_table s)\<rparr>)
              | None \<Rightarrow>
                  (case ask_type t s of
                     Inl e \<Rightarrow> Inl e
                   | Inr (ty, s1) \<Rightarrow>
                       Inr (str val,
                            s1\<lparr>symbol_table :=
                                 AList.update var ty (AList.update t ty (symbol_table s1))\<rparr>)))
           else
             (case map_of (symbol_table s) var of
                Some _ \<Rightarrow> Inr (str val, s)
              | None \<Rightarrow>
                  (case ask_type var s of
                     Inl e \<Rightarrow> Inl e
                   | Inr (ty, s1) \<Rightarrow>
                       Inr (str val,
                            s1\<lparr>symbol_table := AList.update var ty (symbol_table s1)\<rparr>))))
      | _ \<Rightarrow>
          (case infer_type val of
             Some inferred \<Rightarrow>
               Inr (str val, s\<lparr>symbol_table := AList.update var inferred (symbol_table s)\<rparr>)
           | None \<Rightarrow> Inr (str val, s)))"

section \<open>Derivations: what the grammar actions run over\<close>

text \<open>
  The actions run while the LALR parser reduces, that is bottom-up and left to right over
  the derivation of the token stream. A derivation is given as a tree with one
  constructor per production; each terminal carries its token value (an \<open>ID\<close> its name,
  a \<open>NUMBER\<close> the value the lexer gave it, an operator its text).

  The grammar lists \<open>ID ASSIGN NUMBER SEMICOLON\<close> and \<open>ID ASSIGN ID SEMICOLON\<close> next to
  \<open>ID ASSIGN expression SEMICOLON\<close> (and the same for \<open>RETURN\<close> and the \<open>for\<close> clauses).
  The generated parser prefers a shift to a reduction, and among two reductions the
  production that comes first in the file, so a right-hand side made of one \<open>NUMBER\<close> or
  one \<open>ID\<close> is derived by the direct production and never through \<open>factor\<close>.
\<close>

datatype expression =
    Binop_addsub expression string expression
  | Binop_term expression string expression
  | Factor_number pyval
  | Factor_id string
  | Factor_group expression

datatype condition = Condition expression string expression

datatype for_clause =
    Clause_number string pyval
  | Clause_id string string
  | Clause_expr string expression
  | Clause_empty

datatype statement =
    Assign_number string pyval
  | Assign_id string string
  | Assign_expr string expression
  | If_stmt condition "statement list"
  | While_stmt condition "statement list"
  | For_stmt for_clause "condition option" for_clause "statement list"
  | Return_id string
  | Return_number pyval
  | Return_expr expression

datatype function_def = Fn string "string list" "statement list"

section \<open>The syntax tree the actions build\<close>

datatype assign_node = AssignNode string string

datatype node =
    FunctionN string "string list" "node list" string
  | AssignN assign_node
  | IfN string "node list"
  | WhileN string "node list"
  | ForN "assign_node option" "string option" "assign_node option" "node list"
  | ReturnN pyval

section \<open>Grammar actions\<close>

text \<open>
  \<open>p_expression_binop_addsub\<close>, \<open>p_term_binop\<close>, \<open>p_factor_number\<close>, \<open>p_factor_id\<close> and
  \<open>p_factor_group\<close>, in reduction order: the left operand's actions, then the right
  operand's, then the production's own.
\<close>

fun p_expression :: "expression \<Rightarrow> pstate \<Rightarrow> error + string \<times> pstate" where
  "p_expression (Binop_addsub l opr r) s =
     (case p_expression l s of
        Inl e \<Rightarrow> Inl e
      | Inr (a, s1) \<Rightarrow>
          (case p_expression r s1 of
             Inl e \<Rightarrow> Inl e
           | Inr (b, s2) \<Rightarrow> Inr (a @ '' '' @ opr @ '' '' @ b, s2)))"
| "p_expression (Binop_term l opr r) s =
     (case p_expression l s of
        Inl e \<Rightarrow> Inl e
      | Inr (a, s1) \<Rightarrow>
          (case p_expression r s1 of
             Inl e \<Rightarrow> Inl e
           | Inr (b, s2) \<Rightarrow> Inr (a @ '' '' @ opr @ '' '' @ b, s2)))"
| "p_expression (Factor_number n) s = Inr (str n, s)"
| "p_expression (Factor_id var) s =
     (case map_of (symbol_table s) var of
        Some _ \<Rightarrow> Inr (var, s)
      | None \<Rightarrow>
          (case ask_type var s of
             Inl e \<Rightarrow> Inl e
           | Inr (ty, s1) \<Rightarrow>
               Inr (var, s1\<lparr>symbol_table := AList.update var ty (symbol_table s1)\<rparr>)))"
| "p_expression (Factor_group x) s =
     (case p_expression x s of
        Inl e \<Rightarrow> Inl e
      | Inr (a, s1) \<Rightarrow> Inr (''('' @ a @ '')'', s1))"

fun p_condition :: "condition \<Rightarrow> pstate \<Rightarrow> error + string \<times> pstate" where
  "p_condition (Condition l opr r) s =
     (case p_expression l s of
        Inl e \<Rightarrow> Inl e
      | Inr (a, s1) \<Rightarrow>
          (case p_expression r s1 of
             Inl e \<Rightarrow> Inl e
           | Inr (b, s2) \<Rightarrow> Inr (a @ '' '' @ opr @ '' '' @ b, s2)))"

text \<open>\<open>p_condition_opt\<close>: the condition's text, or \<open>None\<close> for the empty production.\<close>

fun p_condition_opt :: "condition option \<Rightarrow> pstate \<Rightarrow> error + string option \<times> pstate" where
  "p_condition_opt None s = Inr (None, s)"
| "p_condition_opt (Some c) s =
     (case p_condition c s of
        Inl e \<Rightarrow> Inl e
      | Inr (t, s1) \<Rightarrow> Inr (Some t, s1))"

text \<open>\<open>p_statement_assign_simple\<close> and \<open>p_statement_assign_expr\<close>.\<close>

definition p_statement_assign :: "string \<Rightarrow> pyval \<Rightarrow> bool \<Rightarrow> pstate \<Rightarrow> error + assign_node \<times> pstate" where
  "p_statement_assign var val is_expression s =
     (case handle_assignment var val is_expression s of
        Inl e \<Rightarrow> Inl e
      | Inr (normalized, s1) \<Rightarrow> Inr (AssignNode var normalized, s1))"

text \<open>
  \<open>p_for_init_opt\<close> and \<open>p_for_update_opt\<close> have the same body. \<open>is_expr\<close> is computed
  from the value: false for a number and for a string that is an identifier.
\<close>

definition is_expr_of :: "pyval \<Rightarrow> bool" where
  "is_expr_of val = (case val of PyStr t \<Rightarrow> \<not> isidentifier t | _ \<Rightarrow> False)"

fun p_for_clause :: "for_clause \<Rightarrow> pstate \<Rightarrow> error + assign_node option \<times> pstate" where
  "p_for_clause Clause_empty s = Inr (None, s)"
| "p_for_clause (Clause_number var n) s =
     (case p_statement_assign var n (is_expr_of n) s of
        Inl e \<Rightarrow> Inl e
      | Inr (a, s1) \<Rightarrow> Inr (Some a, s1))"
| "p_for_clause (Clause_id var v) s =
     (case p_statement_assign var (PyStr v) (is_expr_of (PyStr v)) s of
        Inl e \<Rightarrow> Inl e
      | Inr (a, s1) \<Rightarrow> Inr (Some a, s1))"
| "p_for_clause (Clause_expr var x) s =
     (case p_expression x s of
        Inl e \<Rightarrow> Inl e
      | Inr (t, s1) \<Rightarrow>
          (case p_statement_assign var (PyStr t) (is_expr_of (PyStr t)) s1 of
             Inl e \<Rightarrow> Inl e
           | Inr (a, s2) \<Rightarrow> Inr (Some a, s2)))"

text \<open>\<open>p_statement_return\<close>, given the value \<open>p[2]\<close> of the returned symbol.\<close>

definition p_statement_return :: "pyval \<Rightarrow> pstate \<Rightarrow> error + node \<times> pstate" where
  "p_statement_return ret_val s0 =
     (let s = s0\<lparr>has_return := True\<rparr> in
      case map_of (symbol_table s) return_key of
        Some _ \<Rightarrow> Inr (ReturnN ret_val, s)
      | None \<Rightarrow>
          (case infer_type ret_val of
             Some inferred \<Rightarrow>
               Inr (ReturnN ret_val,
                    s\<lparr>symbol_table := AList.update return_key inferred (symbol_table s)\<rparr>)
           | None \<Rightarrow>
               (case ask_type ''function_return_type'' s of
                  Inl e \<Rightarrow> Inl e
                | Inr (ty, s1) \<Rightarrow>
                    Inr (ReturnN ret_val,
                         s1\<lparr>symbol_table := AList.update return_key ty (symbol_table s1)\<rparr>))))"

text \<open>
  The statement productions and \<open>p_stmt_list\<close>. For \<open>if\<close>, \<open>while\<close> and \<open>for\<close> the header
  is reduced before the body.
\<close>

fun p_statement :: "statement \<Rightarrow> pstate \<Rightarrow> error + node \<times> pstate"
  and p_stmt_list :: "statement list \<Rightarrow> pstate \<Rightarrow> error + node list \<times> pstate" where
  "p_statement (Assign_number var n) s =
     (case p_statement_assign var n False s of
        Inl e \<Rightarrow> Inl e
      | Inr (a, s1) \<Rightarrow> Inr (AssignN a, s1))"
| "p_statement (Assign_id var v) s =
     (case p_statement_assign var (PyStr v) False s of
        Inl e \<Rightarrow> Inl e
      | Inr (a, s1) \<Rightarrow> Inr (AssignN a, s1))"
| "p_statement (Assign_expr var x) s =
     (case p_expression x s of
        Inl e \<Rightarrow> Inl e
      | Inr (t, s1) \<Rightarrow>
          (case p_statement_assign var (PyStr t) True s1 of
             Inl e \<Rightarrow> Inl e
           | Inr (a, s2) \<Rightarrow> Inr (AssignN a, s2)))"
| "p_statement (If_stmt c body) s =
     (case p_condition c s of
        Inl e \<Rightarrow> Inl e
      | Inr (ct, s1) \<Rightarrow>
          (case p_stmt_list body s1 of
             Inl e \<Rightarrow> Inl e
           | Inr (ns, s2) \<Rightarrow> Inr (IfN ct ns, s2)))"
| "p_statement (While_stmt c body) s =
     (case p_condition c s of
        Inl e \<Rightarrow> Inl e
      | Inr (ct, s1) \<Rightarrow>
          (case p_stmt_list body s1 of
             Inl e \<Rightarrow> Inl e
           | Inr (ns, s2) \<Rightarrow> Inr (WhileN ct ns, s2)))"
| "p_statement (For_stmt ini c upd body) s =
     (case p_for_clause ini s of
        Inl e \<Rightarrow> Inl e
      | Inr (i, s1) \<Rightarrow>
          (case p_condition_opt c s1 of
             Inl e \<Rightarrow> Inl e
           | Inr (ct, s2) \<Rightarrow>
               (case p_for_clause upd s2 of
                  Inl e \<Rightarrow> Inl e
                | Inr (u, s3) \<Rightarrow>
                    (case p_stmt_list body s3 of
                       Inl e \<Rightarrow> Inl e
                     | Inr (ns, s4) \<Rightarrow> Inr (ForN i ct u ns, s4)))))"
| "p_statement (Return_id v) s = p_statement_return (PyStr v) s"
| "p_statement (Return_number n) s = p_statement_return n s"
| "p_statement (Return_expr x) s =
     (case p_expression x s of
        Inl e \<Rightarrow> Inl e
      | Inr (t, s1) \<Rightarrow> p_statement_return (PyStr t) s1)"
| "p_stmt_list [] s = Inr ([], s)"
| "p_stmt_list (st # rest) s =
     (case p_statement st s of
        Inl e \<Rightarrow> Inl e
      | Inr (n, s1) \<Rightarrow>
          (case p_stmt_list rest s1 of
             Inl e \<Rightarrow> Inl e
           | Inr (ns, s2) \<Rightarrow> Inr (n # ns, s2)))"

text \<open>The loop of \<open>p_function\<close> that asks for the type of each parameter not yet typed.\<close>

fun ensure_params :: "string list \<Rightarrow> pstate \<Rightarrow> error + unit \<times> pstate" where
  "ensure_params [] s = Inr ((), s)"
| "ensure_params (param # rest) s =
     (case map_of (symbol_table s) param of
        Some _ \<Rightarrow> ensure_params rest s
      | None \<Rightarrow>
          (case ask_type param s of
             Inl e \<Rightarrow> Inl e
           | Inr (ty, s1) \<Rightarrow>
               ensure_params rest
                 (s1\<lparr>symbol_table := AList.update param ty (symbol_table s1)\<rparr>)))"

text \<open>
  \<open>p_function\<close>, run once the parameter list and the body have been reduced:
  \<open>symbol_table.pop\<close> removes the reserved key and gives its value.
\<close>

definition take_return_type :: "pstate \<Rightarrow> string \<times> pstate" where
  "take_return_type s =
     (case (if has_return s then map_of (symbol_table s) return_key else None) of
        Some ty \<Rightarrow> (ty, s\<lparr>symbol_table := AList.delete return_key (symbol_table s)\<rparr>)
      | None \<Rightarrow> (''void'', s))"

definition p_function :: "string \<Rightarrow> string list \<Rightarrow> node list \<Rightarrow> pstate \<Rightarrow> error + node \<times> pstate" where
  "p_function name params body s =
     (case take_return_type s of
        (ret_type, s1) \<Rightarrow>
          (case ensure_params params s1 of
             Inl e \<Rightarrow> Inl e
           | Inr (u, s2) \<Rightarrow> Inr (FunctionN name params body ret_type, s2)))"

text \<open>\<open>p_program\<close> over the derivation of the one function, and \<open>parse_code\<close>.\<close>

fun p_program :: "function_def \<Rightarrow> pstate \<Rightarrow> error + node list \<times> pstate" where
  "p_program (Fn name params body) s =
     (case p_stmt_list body s of
        Inl e \<Rightarrow> Inl e
      | Inr (ns, s1) \<Rightarrow>
          (case p_function name params ns s1 of
             Inl e \<Rightarrow> Inl e
           | Inr (f, s2) \<Rightarrow> Inr ([f], s2)))"

definition parse_code :: "function_def \<Rightarrow> pstate \<Rightarrow> error + node list \<times> pstate" where
  "parse_code code s = p_program code (s\<lparr>symbol_table := [], has_return := False\<rparr>)"

section \<open>Code generation\<close>

text \<open>\<open>_format_for_assignment\<close>: the flag \<open>include_type\<close> is accepted and not used.\<close>

fun format_for_assignment :: "assign_node \<Rightarrow> bool \<Rightarrow> string" where
  "format_for_assignment (AssignNode var val) include_type = var @ '' = '' @ val"

text \<open>
  \<open>generate_if_cpp\<close> and \<open>generate_for_cpp\<close> of \<open>control_flow\<close>. They receive the
  generator as a callback and call it once, on the body at \<open>indent + 1\<close>; here they
  receive the text that call produced.
\<close>

definition generate_if_cpp :: "string \<Rightarrow> nat \<Rightarrow> string \<Rightarrow> string" where
  "generate_if_cpp cond indent body_cpp =
     spaces (indent * 4) @ ''if ('' @ cond @ '') {\<newline>'' @ body_cpp @ spaces (indent * 4) @ ''}\<newline>''"

definition generate_for_cpp ::
  "assign_node option \<Rightarrow> string option \<Rightarrow> assign_node option \<Rightarrow> nat \<Rightarrow> string \<Rightarrow> string" where
  "generate_for_cpp ini cond upd indent body_cpp =
     (let init_part = (case ini of None \<Rightarrow> [] | Some a \<Rightarrow> format_for_assignment a False);
          cond_part = (case cond of None \<Rightarrow> [] | Some c \<Rightarrow> c);
          update_part = (case upd of None \<Rightarrow> [] | Some a \<Rightarrow> format_for_assignment a False)
      in spaces (indent * 4) @ ''for ('' @ init_part @ ''; '' @ cond_part @ ''; '' @ update_part
           @ '') {\<newline>'' @ body_cpp @ spaces (indent * 4) @ ''}\<newline>'')"

text \<open>
  Modelled from the spec: \<open>control_flow/while.py\<close> is not among the sources. The spec
  renders \<open>while\<close> like \<open>if\<close>: a header line, then the braced body one level deeper.
\<close>

definition generate_while_cpp :: "string \<Rightarrow> nat \<Rightarrow> string \<Rightarrow> string" where
  "generate_while_cpp cond indent body_cpp =
     spaces (indent * 4) @ ''while ('' @ cond @ '') {\<newline>'' @ body_cpp @ spaces (indent * 4) @ ''}\<newline>''"

text \<open>The loop of \<open>generate_cpp\<close> that builds the typed parameter list.\<close>

fun param_parts :: "string list \<Rightarrow> pstate \<Rightarrow> error + string list \<times> pstate" where
  "param_parts [] s = Inr ([], s)"
| "param_parts (param # rest) s =
     (case (case map_of (symbol_table s) param of
              Some d \<Rightarrow> if d \<noteq> [] then Inr (d, s) else
                (case ask_type param s of
                   Inl e \<Rightarrow> Inl e
                 | Inr (ty, s1) \<Rightarrow>
                     Inr (ty, s1\<lparr>symbol_table := AList.update param ty (symbol_table s1)\<rparr>))
            | None \<Rightarrow>
                (case ask_type param s of
                   Inl e \<Rightarrow> Inl e
                 | Inr (ty, s1) \<Rightarrow>
                     Inr (ty, s1\<lparr>symbol_table := AList.update param ty (symbol_table s1)\<rparr>))) of
        Inl e \<Rightarrow> Inl e
      | Inr (dtype, s2) \<Rightarrow>
          (case param_parts rest s2 of
             Inl e \<Rightarrow> Inl e
           | Inr (parts, s3) \<Rightarrow> Inr ((dtype @ '' '' @ param) # parts, s3)))"

text \<open>
  The loop over \<open>symbol_table.items()\<close> that collects \<open>vars_to_declare\<close> and grows
  \<open>func_declared\<close>.
\<close>

fun collect_vars ::
  "(string \<times> string) list \<Rightarrow> string set \<Rightarrow> (string \<times> string) list \<times> string set" where
  "collect_vars [] func_declared = ([], func_declared)"
| "collect_vars ((var, dtype) # rest) func_declared =
     (if var \<notin> func_declared \<and> dtype \<noteq> [] then
        (case collect_vars rest (insert var func_declared) of
           (vs, fd) \<Rightarrow> ((var, dtype) # vs, fd))
      else collect_vars rest func_declared)"

definition declaration_line :: "nat \<Rightarrow> string \<times> string \<Rightarrow> string" where
  "declaration_line indent vd = spaces ((indent + 1) * 4) @ snd vd @ '' '' @ fst vd @ '';\<newline>''"

definition declarations :: "nat \<Rightarrow> (string \<times> string) list \<Rightarrow> string" where
  "declarations indent vars_to_declare =
     (if vars_to_declare \<noteq> [] then
        concat (map (declaration_line indent) vars_to_declare) @ ''\<newline>''
      else [])"

text \<open>
  \<open>generate_cpp\<close>: the loop over the statements is \<open>generate_cpp\<close>, its body is
  \<open>generate_stmt\<close>. The set \<open>declared\<close> is handed down and never read.
\<close>

fun generate_cpp :: "node list \<Rightarrow> nat \<Rightarrow> string set \<Rightarrow> pstate \<Rightarrow> error + string \<times> pstate"
  and generate_stmt :: "node \<Rightarrow> nat \<Rightarrow> string set \<Rightarrow> pstate \<Rightarrow> error + string \<times> pstate" where
  "generate_cpp [] indent declared s = Inr ([], s)"
| "generate_cpp (stmt # rest) indent declared s =
     (case generate_stmt stmt indent declared s of
        Inl e \<Rightarrow> Inl e
      | Inr (a, s1) \<Rightarrow>
          (case generate_cpp rest indent declared s1 of
             Inl e \<Rightarrow> Inl e
           | Inr (b, s2) \<Rightarrow> Inr (a @ b, s2)))"
| "generate_stmt (FunctionN name params body ret_type) indent declared s =
     (case param_parts params s of
        Inl e \<Rightarrow> Inl e
      | Inr (parts, s1) \<Rightarrow>
          (case collect_vars (symbol_table s1) (set params) of
             (vars_to_declare, func_declared) \<Rightarrow>
               (case generate_cpp body (indent + 1) func_declared s1 of
                  Inl e \<Rightarrow> Inl e
                | Inr (body_cpp, s2) \<Rightarrow>
                    Inr (ret_type @ '' '' @ name @ ''('' @ join '', '' parts @ '') {\<newline>''
                           @ declarations indent vars_to_declare
                           @ body_cpp @ ''}\<newline>\<newline>'', s2))))"
| "generate_stmt (AssignN a) indent declared s =
     Inr (spaces (indent * 4) @ format_for_assignment a False @ '';\<newline>'', s)"
| "generate_stmt (IfN cond body) indent declared s =
     (case generate_cpp body (indent + 1) declared s of
        Inl e \<Rightarrow> Inl e
      | Inr (body_cpp, s1) \<Rightarrow> Inr (generate_if_cpp cond indent body_cpp, s1))"
| "generate_stmt (WhileN cond body) indent declared s =
     (case generate_cpp body (indent + 1) declared s of
        Inl e \<Rightarrow> Inl e
      | Inr (body_cpp, s1) \<Rightarrow> Inr (generate_while_cpp cond indent body_cpp, s1))"
| "generate_stmt (ForN ini cond upd body) indent declared s =
     (case generate_cpp body (indent + 1) declared s of
        Inl e \<Rightarrow> Inl e
      | Inr (body_cpp, s1) \<Rightarrow> Inr (generate_for_cpp ini cond upd indent body_cpp, s1))"
| "generate_stmt (ReturnN val) indent declared s =
     Inr (spaces (indent * 4) @ ''return '' @ str val @ '';\<newline>'', s)"

text \<open>
  \<open>to_cpp\<close>: \<open>parsed[0]['name']\<close> is read after the body has been generated; it raises
  on an empty list and on a first node that is not a function.
\<close>

definition header :: string where
  "header = ''#include <bits/stdc++.h>\<newline>using namespace std;\<newline>\<newline>''"

definition main_text :: "string \<Rightarrow> string" where
  "main_text name = ''int main() {\<newline>    '' @ name @ ''();\<newline>    return 0;\<newline>}\<newline>''"

definition to_cpp :: "node list \<Rightarrow> pstate \<Rightarrow> error + string \<times> pstate" where
  "to_cpp parsed s =
     (case generate_cpp parsed 0 {} s of
        Inl e \<Rightarrow> Inl e
      | Inr (body, s1) \<Rightarrow>
          (case parsed of
             [] \<Rightarrow> Inl IndexError
           | FunctionN name params b ret_type # rest \<Rightarrow> Inr (header @ body @ main_text name, s1)
           | other # rest \<Rightarrow> Inl (KeyError ''name'')))"

section \<open>A run: register the provider, parse, emit\<close>

definition register_type_provider :: "provider option \<Rightarrow> pstate \<Rightarrow> pstate" where
  "register_type_provider fn s = s\<lparr>type_provider := fn\<rparr>"

text \<open>
  The two calls every caller makes (\<open>convert\<close> in \<open>server.py\<close>, \<open>main\<close> in \<open>app.py\<close>):
  \<open>parsed = parse_code(code)\<close>, then \<open>to_cpp(parsed)\<close>. An exception in the first
  leaves the second uncalled.
\<close>

definition parse_then_emit :: "function_def \<Rightarrow> pstate \<Rightarrow> error + string \<times> pstate" where
  "parse_then_emit code s =
     (case parse_code code s of
        Inl e \<Rightarrow> Inl e
      | Inr (parsed, s1) \<Rightarrow> to_cpp parsed s1)"

section \<open>Observations and example inputs\<close>

text \<open>What a caller sees of a result: the exception, or the value returned.\<close>

definition outcome :: "error + 'a \<times> pstate \<Rightarrow> error + 'a" where
  "outcome r = (case r of Inl e \<Rightarrow> Inl e | Inr (x, s) \<Rightarrow> Inr x)"

text \<open>\<open>isinstance(value, (int, float))\<close>.\<close>

definition is_number :: "pyval \<Rightarrow> bool" where
  "is_number val = (case val of PyStr t \<Rightarrow> False | _ \<Rightarrow> True)"

text \<open>The module globals as they are right after import: nothing registered.\<close>

definition initial_state :: pstate where
  "initial_state =
     \<lparr>symbol_table = [], has_return = False, type_provider = None, oracle_calls = []\<rparr>"

text \<open>Three providers: one answers \<open>int\<close>, one pads its answer, one answers outside the list.\<close>

definition int_provider :: provider where
  "int_provider var allowed = Inr ''int''"

definition padded_provider :: provider where
  "padded_provider var allowed = Inr '' int ''"

definition double_provider :: provider where
  "double_provider var allowed = Inr ''double''"

text \<open>\<open>fn f() { if (z < 1) { } }\<close>\<close>

definition z_example :: function_def where
  "z_example =
     Fn ''f'' [] [If_stmt (Condition (Factor_id ''z'') ''<'' (Factor_number (PyInt 1))) []]"

text \<open>The table after \<open>x = 5; y = 2.5;\<close> with no provider registered.\<close>

definition typed_xy_state :: pstate where
  "typed_xy_state = initial_state\<lparr>symbol_table := [(''x'', ''int''), (''y'', ''float'')]\<rparr>"

text \<open>\<open>fn f() { x = 5; y = x; return y; }\<close>\<close>

definition f_example :: function_def where
  "f_example =
     Fn ''f'' [] [Assign_number ''x'' (PyInt 5), Assign_id ''y'' ''x'', Return_id ''y'']"

text \<open>\<open>fn f() { a = 5; b = a; a = 2.5; }\<close>\<close>

definition reassign_example :: function_def where
  "reassign_example =
     Fn ''f'' [] [Assign_number ''a'' (PyInt 5), Assign_id ''b'' ''a'',
                  Assign_number ''a'' (PyFloat ''2.5'')]"

text \<open>
  Two states agree on the module globals; two results agree when they raise the same
  exception, or return the same value and leave globals that agree.
\<close>

definition same_globals :: "pstate \<Rightarrow> pstate \<Rightarrow> bool" where
  "same_globals s t = (symbol_table s = symbol_table t \<and> has_return s = has_return t
                        \<and> type_provider s = type_provider t)"

definition same_result :: "error + 'a \<times> pstate \<Rightarrow> error + 'a \<times> pstate \<Rightarrow> bool" where
  "same_result r1 r2 =
     (case r1 of
        Inl e1 \<Rightarrow> (case r2 of Inl e2 \<Rightarrow> e1 = e2 | Inr q \<Rightarrow> False)
      | Inr (x, s) \<Rightarrow> (case r2 of Inl e2 \<Rightarrow> False | Inr (y, t) \<Rightarrow> x = y \<and> same_globals s t))"

text \<open>What an earlier run can leave behind: entries, the flag set, queries made.\<close>

definition leftover_state :: pstate where
  "leftover_state =
     \<lparr>symbol_table = [(''junk'', ''long''), (return_key, ''float'')], has_return = True,
      type_provider = Some int_provider, oracle_calls = [''junk'']\<rparr>"

text \<open>
  The names a derivation makes the actions record in the table, read off the actions:
  an operand of an expression, the target of an assignment, and the right-hand side of
  an assignment when it is a single identifier. A returned identifier is not among them.
\<close>

fun names_of_expression :: "expression \<Rightarrow> string set" where
  "names_of_expression (Binop_addsub l opr r) = names_of_expression l \<union> names_of_expression r"
| "names_of_expression (Binop_term l opr r) = names_of_expression l \<union> names_of_expression r"
| "names_of_expression (Factor_number n) = {}"
| "names_of_expression (Factor_id var) = {var}"
| "names_of_expression (Factor_group x) = names_of_expression x"

text \<open>The text the expression actions build, which does not depend on the state.\<close>

fun expression_text :: "expression \<Rightarrow> string" where
  "expression_text (Binop_addsub l opr r) =
     expression_text l @ '' '' @ opr @ '' '' @ expression_text r"
| "expression_text (Binop_term l opr r) =
     expression_text l @ '' '' @ opr @ '' '' @ expression_text r"
| "expression_text (Factor_number n) = str n"
| "expression_text (Factor_id var) = var"
| "expression_text (Factor_group x) = ''('' @ expression_text x @ '')''"

fun names_of_condition :: "condition \<Rightarrow> string set" where
  "names_of_condition (Condition l opr r) = names_of_expression l \<union> names_of_expression r"

definition names_of_assignment :: "string \<Rightarrow> pyval \<Rightarrow> bool \<Rightarrow> string set" where
  "names_of_assignment var val is_expression =
     insert var (case val of
                   PyStr t \<Rightarrow> if \<not> is_expression \<and> isidentifier t then {t} else {}
                 | _ \<Rightarrow> {})"

fun names_of_clause :: "for_clause \<Rightarrow> string set" where
  "names_of_clause Clause_empty = {}"
| "names_of_clause (Clause_number var n) = names_of_assignment var n (is_expr_of n)"
| "names_of_clause (Clause_id var v) = names_of_assignment var (PyStr v) (is_expr_of (PyStr v))"
| "names_of_clause (Clause_expr var x) =
     names_of_expression x
     \<union> names_of_assignment var (PyStr (expression_text x)) (is_expr_of (PyStr (expression_text x)))"

fun names_of_statement :: "statement \<Rightarrow> string set"
  and names_of_body :: "statement list \<Rightarrow> string set" where
  "names_of_statement (Assign_number var n) = names_of_assignment var n False"
| "names_of_statement (Assign_id var v) = names_of_assignment var (PyStr v) False"
| "names_of_statement (Assign_expr var x) =
     names_of_expression x \<union> names_of_assignment var (PyStr (expression_text x)) True"
| "names_of_statement (If_stmt c body) = names_of_condition c \<union> names_of_body body"
| "names_of_statement (While_stmt c body) = names_of_condition c \<union> names_of_body body"
| "names_of_statement (For_stmt ini c upd body) =
     names_of_clause ini \<union> (case c of None \<Rightarrow> {} | Some x \<Rightarrow> names_of_condition x)
     \<union> names_of_clause upd \<union> names_of_body body"
| "names_of_statement (Return_id v) = {}"
| "names_of_statement (Return_number n) = {}"
| "names_of_statement (Return_expr x) = names_of_expression x"
| "names_of_body [] = {}"
| "names_of_body (st # rest) = names_of_statement st \<union> names_of_body rest"

text \<open>Whether a \<open>return\<close> statement occurs, at any depth.\<close>

fun returns_in_statement :: "statement \<Rightarrow> bool"
  and returns_in_body :: "statement list \<Rightarrow> bool" where
  "returns_in_statement (Assign_number var n) = False"
| "returns_in_statement (Assign_id var v) = False"
| "returns_in_statement (Assign_expr var x) = False"
| "returns_in_statement (If_stmt c body) = returns_in_body body"
| "returns_in_statement (While_stmt c body) = returns_in_body body"
| "returns_in_statement (For_stmt ini c upd body) = returns_in_body body"
| "returns_in_statement (Return_id v) = True"
| "returns_in_statement (Return_number n) = True"
| "returns_in_statement (Return_expr x) = True"
| "returns_in_body [] = False"
| "returns_in_body (st # rest) = (returns_in_statement st \<or> returns_in_body rest)"

text \<open>
  The table as a dict has one entry per key; every type in it is one of the labels.
\<close>

definition table_ok :: "pstate \<Rightarrow> bool" where
  "table_ok s = (distinct (map fst (symbol_table s))
                 \<and> (\<forall>p \<in> set (symbol_table s). snd p \<in> set valid_dtypes))"

text \<open>
  The effect of a successful action on the globals: the keys gain the names \<open>N\<close> and,
  when \<open>r\<close>, the reserved key; the flag is set when \<open>r\<close>; a good table stays good.
\<close>

definition grows :: "pstate \<Rightarrow> string set \<Rightarrow> bool \<Rightarrow> pstate \<Rightarrow> bool" where
  "grows s N r s' =
     (fst ` set (symbol_table s') = fst ` set (symbol_table s) \<union> N \<union> (if r then {return_key} else {})
      \<and> has_return s' = (has_return s \<or> r)
      \<and> (table_ok s \<longrightarrow> table_ok s'))"

text \<open>\<open>fn g() { x = 5; }\<close>\<close>

definition x_example :: function_def where
  "x_example = Fn ''g'' [] [Assign_number ''x'' (PyInt 5)]"

text \<open>A node with no function node in it: what a statement production builds.\<close>

fun function_free :: "node \<Rightarrow> bool" where
  "function_free (FunctionN name params body ret_type) = False"
| "function_free (AssignN a) = True"
| "function_free (IfN c body) = (\<forall>n \<in> set body. function_free n)"
| "function_free (WhileN c body) = (\<forall>n \<in> set body. function_free n)"
| "function_free (ForN ini c upd body) = (\<forall>n \<in> set body. function_free n)"
| "function_free (ReturnN v) = True"

text \<open>\<open>fn f() { return y; }\<close>\<close>

definition return_only_example :: function_def where
  "return_only_example = Fn ''f'' [] [Return_id ''y'']"

text \<open>
  The lines of a generated text, and those among them that declare \<open>v\<close> in a function
  body at the top level: four spaces, a type label, the name, a semicolon.
\<close>

fun split_lines :: "string \<Rightarrow> string list" where
  "split_lines [] = [[]]"
| "split_lines (c # cs) =
     (if c = CHR 0x0A then [] # split_lines cs
      else (case split_lines cs of [] \<Rightarrow> [[c]] | l # ls \<Rightarrow> (c # l) # ls))"

definition declaration_lines_of :: "string \<Rightarrow> string \<Rightarrow> string list" where
  "declaration_lines_of v out =
     filter (\<lambda>l. l \<in> set (map (\<lambda>d. spaces 4 @ d @ '' '' @ v @ '';'') valid_dtypes))
            (split_lines out)"

text \<open>\<open>fn f() { y = 7; x = 5; x = 2.5; x = y; }\<close>\<close>

definition overwrite_example :: function_def where
  "overwrite_example =
     Fn ''f'' [] [Assign_number ''y'' (PyInt 7), Assign_number ''x'' (PyInt 5),
                  Assign_number ''x'' (PyFloat ''2.5''), Assign_id ''x'' ''y'']"

text \<open>\<open>fn f() { __return_type__ = 5; return y; }\<close>\<close>

definition reserved_return_example :: function_def where
  "reserved_return_example =
     Fn ''f'' [] [Assign_number ''__return_type__'' (PyInt 5), Return_id ''y'']"

text \<open>\<open>fn f() { return y + 0; }\<close>\<close>

definition return_sum_example :: function_def where
  "return_sum_example =
     Fn ''f'' [] [Return_expr (Binop_addsub (Factor_id ''y'') ''+'' (Factor_number (PyInt 0)))]"

section \<open>Basic facts\<close>

lemma ask_type_no_provider:
  "type_provider s = None \<Longrightarrow> ask_type var s = Inl (MissingTypeError var)"
  by (simp add: ask_type_def)

lemma ask_type_invalid:
  "type_provider s = Some fn \<Longrightarrow> fn var valid_dtypes = Inr answer
   \<Longrightarrow> strip answer \<notin> set valid_dtypes
   \<Longrightarrow> ask_type var s = Inl (MissingTypeError var)"
  by (simp add: ask_type_def)

lemma parse_failure_stops: "parse_code code s = Inl e \<Longrightarrow> parse_then_emit code s = Inl e"
  by (simp add: parse_then_emit_def)

lemma strip_double: "strip ''double'' = ''double''"
  by (simp add: strip_def isspace_def)

lemma strip_int: "strip ''int'' = ''int''"
  by (simp add: strip_def isspace_def)

lemma quotes_not_xid_start: "\<not> xid_start dquote" "\<not> xid_start squote"
  by (simp_all add: xid_start_def dquote_def squote_def)

lemma xid_start_not_quote: "xid_start c \<Longrightarrow> c \<noteq> dquote \<and> c \<noteq> squote"
  using quotes_not_xid_start by auto

lemma identifier_no_shape: "isidentifier t \<Longrightarrow> infer_type (PyStr t) = None"
  by (cases t) (auto simp: isidentifier_def startswith_def dest: xid_start_not_quote)

lemma isidentifier_x: "isidentifier ''x''"
  by (simp add: isidentifier_def xid_start_def xid_continue_def)

lemma isidentifier_y: "isidentifier ''y''"
  by (simp add: isidentifier_def xid_start_def xid_continue_def)

lemma str_int_5: "str_int 5 = ''5''"
  by code_simp

lemma handle_assignment_number:
  "handle_assignment var (PyInt i) e s
     = Inr (str_int i, s\<lparr>symbol_table := AList.update var ''int'' (symbol_table s)\<rparr>)"
  "handle_assignment var (PyFloat f) e s
     = Inr (f, s\<lparr>symbol_table := AList.update var ''float'' (symbol_table s)\<rparr>)"
  by (simp_all add: handle_assignment_def)

section \<open>Failures of type resolution\<close>

text \<open>
  C1, as stated, at a padded answer: the provider answers \<open>int\<close> between two spaces,
  which is not one of the seven labels, and \<open>ask_type\<close> accepts it as \<open>int\<close>.
\<close>

theorem ask_type_padded_answer_counterexample:
  "'' int '' \<notin> set valid_dtypes \<and>
   outcome (ask_type ''x'' (register_type_provider (Some padded_provider) initial_state))
     = Inr ''int''"
  by (simp add: valid_dtypes_def outcome_def ask_type_def register_type_provider_def
      initial_state_def padded_provider_def strip_def isspace_def)

text \<open>
  C1, amended: a resolution that falls to the oracle fails with \<open>MissingTypeError\<close>
  carrying the queried name when no provider is registered, and also when the provider's
  answer, once leading and trailing whitespace is stripped, is not one of the seven
  labels; and when the parse raises, the run ends with that exception and no text.
\<close>

theorem ask_type_missing_type:
  "(type_provider s = None \<longrightarrow> ask_type var s = Inl (MissingTypeError var)) \<and>
   (\<forall>fn answer. type_provider s = Some fn \<and> fn var valid_dtypes = Inr answer
        \<and> strip answer \<notin> set valid_dtypes \<longrightarrow> ask_type var s = Inl (MissingTypeError var)) \<and>
   (\<forall>code e. parse_code code s = Inl e \<longrightarrow> parse_then_emit code s = Inl e)"
  by (auto simp: ask_type_no_provider ask_type_invalid parse_failure_stops)

text \<open>
  Witness for C1: no provider; a provider answering \<open>double\<close>; and the program whose
  condition reads the untyped \<open>z\<close>, parsed with no provider.
\<close>

theorem ask_type_missing_type_witness:
  "ask_type ''z'' initial_state = Inl (MissingTypeError ''z'') \<and>
   ask_type ''z'' (register_type_provider (Some double_provider) initial_state)
     = Inl (MissingTypeError ''z'') \<and>
   parse_then_emit z_example initial_state = Inl (MissingTypeError ''z'')"
proof -
  let ?s = "register_type_provider (Some double_provider) initial_state"
  have a: "type_provider initial_state = None"
    by (simp add: initial_state_def)
  have b: "type_provider ?s = Some double_provider
           \<and> double_provider ''z'' valid_dtypes = Inr ''double''
           \<and> strip ''double'' \<notin> set valid_dtypes"
    by (simp add: register_type_provider_def double_provider_def strip_double valid_dtypes_def)
  have c: "parse_code z_example initial_state = Inl (MissingTypeError ''z'')"
    by (simp add: parse_code_def z_example_def initial_state_def ask_type_def)
  from a ask_type_missing_type [of initial_state "''z''"]
  have 1: "ask_type ''z'' initial_state = Inl (MissingTypeError ''z'')" by blast
  from b ask_type_missing_type [of ?s "''z''"]
  have 2: "ask_type ''z'' ?s = Inl (MissingTypeError ''z'')" by blast
  from c ask_type_missing_type [of initial_state]
  have 3: "parse_then_emit z_example initial_state = Inl (MissingTypeError ''z'')" by blast
  from 1 2 3 show ?thesis by simp
qed

section \<open>Assignments\<close>



text \<open>
  C8, as stated, on \<open>fn f() { y = 7; x = 5; x = 2.5; x = y; }\<close>: \<open>x\<close> is assigned the
  integer and then the decimal, and when the parse completes its type is \<open>int\<close>, taken
  from \<open>y\<close> by the last statement, not the \<open>float\<close> of the later literal.
\<close>

theorem later_identifier_assignment_counterexample:
  "infer_type (PyFloat ''2.5'') = Some ''float'' \<and>
   (case parse_code overwrite_example initial_state of
      Inl e \<Rightarrow> False
    | Inr (parsed, s') \<Rightarrow> map_of (symbol_table s') ''x'' = Some ''int'')"
  by (simp add: parse_code_def overwrite_example_def initial_state_def p_statement_assign_def
      handle_assignment_def isidentifier_y p_function_def take_return_type_def)

lemma p_stmt_list_append:
  "p_stmt_list (xs @ ys) s =
     (case p_stmt_list xs s of
        Inl e \<Rightarrow> Inl e
      | Inr (ns, s1) \<Rightarrow>
          (case p_stmt_list ys s1 of
             Inl e \<Rightarrow> Inl e
           | Inr (ms, s2) \<Rightarrow> Inr (ns @ ms, s2)))"
  by (induction xs arbitrary: s) (auto split: sum.splits)

lemma assign_number_overwrites:
  assumes "is_number v"
  shows "\<exists>n s'. p_statement (Assign_number x v) s = Inr (n, s')
           \<and> infer_type v \<noteq> None
           \<and> map_of (symbol_table s') x = infer_type v
           \<and> oracle_calls s' = oracle_calls s"
  using assms
  by (cases v)
     (simp_all add: is_number_def p_statement_assign_def handle_assignment_number update_conv')

text \<open>
  C8, amended: for two assignments of numbers to the same variable, with any statements
  between them. The earlier one succeeds from any state and makes no query; if the
  statements up to the later one parse, the later one succeeds too, makes no query, and
  right after it the variable has the type inferred from the later number, whatever it
  had. Statements parsed afterwards may change it again.
\<close>

theorem later_literal_overwrites:
  assumes "is_number v1" and "is_number v2"
  shows "(\<exists>n s1. p_statement (Assign_number x v1) s = Inr (n, s1)
            \<and> oracle_calls s1 = oracle_calls s) \<and>
         (\<forall>mid ns s2. p_stmt_list (Assign_number x v1 # mid) s = Inr (ns, s2) \<longrightarrow>
            (\<exists>n s'. p_stmt_list (Assign_number x v1 # mid @ [Assign_number x v2]) s
                      = Inr (ns @ [n], s')
                  \<and> infer_type v2 \<noteq> None
                  \<and> map_of (symbol_table s') x = infer_type v2
                  \<and> oracle_calls s' = oracle_calls s2))"
proof (intro conjI allI impI)
  from assign_number_overwrites [OF assms(1), of x s]
  show "\<exists>n s1. p_statement (Assign_number x v1) s = Inr (n, s1)
            \<and> oracle_calls s1 = oracle_calls s"
    by blast
next
  fix mid ns s2
  assume p: "p_stmt_list (Assign_number x v1 # mid) s = Inr (ns, s2)"
  from assign_number_overwrites [OF assms(2), of x s2] obtain n s' where
    l: "p_statement (Assign_number x v2) s2 = Inr (n, s')" and i: "infer_type v2 \<noteq> None"
    and m: "map_of (symbol_table s') x = infer_type v2"
    and o: "oracle_calls s' = oracle_calls s2"
    by blast
  from l have "p_stmt_list [Assign_number x v2] s2 = Inr ([n], s')"
    by (simp del: p_statement.simps)
  with p have "p_stmt_list ((Assign_number x v1 # mid) @ [Assign_number x v2]) s
                 = Inr (ns @ [n], s')"
    unfolding p_stmt_list_append by simp
  with i m o
  show "\<exists>n s'. p_stmt_list (Assign_number x v1 # mid @ [Assign_number x v2]) s
                      = Inr (ns @ [n], s')
                  \<and> infer_type v2 \<noteq> None
                  \<and> map_of (symbol_table s') x = infer_type v2
                  \<and> oracle_calls s' = oracle_calls s2"
    by auto
qed

text \<open>
  Witness for C8: \<open>x = 5; x = 2.5;\<close> and \<open>x = 5; y = 7; x = 2.5;\<close> leave \<open>x\<close> a \<open>float\<close>.
\<close>

theorem later_literal_overwrites_witness:
  "(\<exists>ns s'. p_stmt_list [Assign_number ''x'' (PyInt 5), Assign_number ''x'' (PyFloat ''2.5'')]
               initial_state = Inr (ns, s')
            \<and> map_of (symbol_table s') ''x'' = Some ''float''
            \<and> oracle_calls s' = []) \<and>
   (\<exists>ns s'. p_stmt_list [Assign_number ''x'' (PyInt 5), Assign_number ''y'' (PyInt 7),
                          Assign_number ''x'' (PyFloat ''2.5'')]
               initial_state = Inr (ns, s')
            \<and> map_of (symbol_table s') ''x'' = Some ''float''
            \<and> oracle_calls s' = [])"
proof -
  have n: "is_number (PyInt 5)" "is_number (PyFloat ''2.5'')"
    by (simp_all add: is_number_def)
  note t = later_literal_overwrites [OF n, of "''x''" initial_state]
  have a: "p_stmt_list (Assign_number ''x'' (PyInt 5) # []) initial_state
             = Inr ([AssignN (AssignNode ''x'' ''5'')],
                    initial_state\<lparr>symbol_table := [(''x'', ''int'')]\<rparr>)"
    by (simp add: p_statement_assign_def handle_assignment_number str_int_5 initial_state_def)
  have b: "p_stmt_list (Assign_number ''x'' (PyInt 5) # [Assign_number ''y'' (PyInt 7)])
             initial_state
             = Inr ([AssignN (AssignNode ''x'' ''5''), AssignN (AssignNode ''y'' (str_int 7))],
                    initial_state\<lparr>symbol_table := [(''x'', ''int''), (''y'', ''int'')]\<rparr>)"
    by (simp add: p_statement_assign_def handle_assignment_number str_int_5 initial_state_def)
  have o: "oracle_calls (initial_state\<lparr>symbol_table := [(''x'', ''int'')]\<rparr>) = []"
    "oracle_calls (initial_state\<lparr>symbol_table := [(''x'', ''int''), (''y'', ''int'')]\<rparr>) = []"
    by (simp_all add: initial_state_def)
  from t [THEN conjunct2, rule_format, OF a]
  have 1: "\<exists>ns s'. p_stmt_list [Assign_number ''x'' (PyInt 5),
                                 Assign_number ''x'' (PyFloat ''2.5'')] initial_state
                      = Inr (ns, s')
            \<and> map_of (symbol_table s') ''x'' = Some ''float''
            \<and> oracle_calls s' = []"
    unfolding o by (simp del: p_stmt_list.simps) blast
  from t [THEN conjunct2, rule_format, OF b]
  have 2: "\<exists>ns s'. p_stmt_list [Assign_number ''x'' (PyInt 5), Assign_number ''y'' (PyInt 7),
                                 Assign_number ''x'' (PyFloat ''2.5'')] initial_state
                      = Inr (ns, s')
            \<and> map_of (symbol_table s') ''x'' = Some ''float''
            \<and> oracle_calls s' = []"
    unfolding o by (simp del: p_stmt_list.simps) blast
  from 1 2 show ?thesis ..
qed

text \<open>
  C10: for \<open>b = a\<close> with \<open>a\<close> an identifier. If \<open>a\<close> has a type, \<open>b\<close> is given it, with no
  query and no error whatever \<open>b\<close> had. If \<open>a\<close> has none, the one query made is for \<open>a\<close>:
  its failure is the statement's failure, and its answer becomes the type of both.
\<close>

theorem identifier_assignment_propagates:
  assumes "isidentifier a"
  shows "(\<forall>ty. map_of (symbol_table s) a = Some ty \<longrightarrow>
            (\<exists>s'. p_statement (Assign_id b a) s = Inr (AssignN (AssignNode b a), s')
                  \<and> map_of (symbol_table s') b = Some ty
                  \<and> oracle_calls s' = oracle_calls s)) \<and>
         (map_of (symbol_table s) a = None \<longrightarrow>
            (case ask_type a s of
               Inl e \<Rightarrow> p_statement (Assign_id b a) s = Inl e
             | Inr (ty, s1) \<Rightarrow>
                 (\<exists>s'. p_statement (Assign_id b a) s = Inr (AssignN (AssignNode b a), s')
                       \<and> map_of (symbol_table s') b = Some ty
                       \<and> map_of (symbol_table s') a = Some ty
                       \<and> oracle_calls s' = oracle_calls s @ [a])))"
  using assms
  by (auto simp: p_statement_assign_def handle_assignment_def ask_type_def Let_def update_conv'
           split: option.splits sum.splits)

text \<open>
  Witness for C10: \<open>y = x\<close> where \<open>x\<close> is an \<open>int\<close> and \<open>y\<close> was a \<open>float\<close>, with no provider.
\<close>

theorem identifier_assignment_propagates_witness:
  "isidentifier ''x'' \<and> map_of (symbol_table typed_xy_state) ''y'' = Some ''float'' \<and>
   (\<exists>s'. p_statement (Assign_id ''y'' ''x'') typed_xy_state
            = Inr (AssignN (AssignNode ''y'' ''x''), s')
        \<and> map_of (symbol_table s') ''y'' = Some ''int''
        \<and> oracle_calls s' = [])"
  using identifier_assignment_propagates [OF isidentifier_x, of typed_xy_state "''y''"]
  by (simp add: isidentifier_x typed_xy_state_def initial_state_def)

section \<open>The return type\<close>

text \<open>
  C9, as stated, on \<open>fn f() { __return_type__ = 5; return y; }\<close> with no provider
  registered: the first \<open>return\<close> returns an identifier, yet no query is made and nothing
  is raised, because the variable has put the reserved key in the table; the function
  is declared \<open>int\<close>.
\<close>

theorem first_return_without_query_counterexample:
  "infer_type (PyStr ''y'') = None \<and>
   (case parse_code reserved_return_example initial_state of
      Inl e \<Rightarrow> False
    | Inr (parsed, s') \<Rightarrow>
        parsed = [FunctionN ''f'' []
                    [AssignN (AssignNode ''__return_type__'' ''5''), ReturnN (PyStr ''y'')]
                    ''int'']
        \<and> oracle_calls s' = [])"
  by (simp add: startswith_def endswith_def squote_def dquote_def parse_code_def
      reserved_return_example_def initial_state_def p_statement_assign_def
      handle_assignment_def p_statement_return_def return_key_def p_function_def
      take_return_type_def str_int_5)

text \<open>
  C9, amended: when a \<open>return\<close> is reduced while the reserved key is not yet in the table
  (so at the first \<open>return\<close>, unless a variable named like the key has been recorded) and
  its value has no literal shape, the one query made is for \<open>function_return_type\<close>,
  whatever the table holds for the returned name. With no provider, or an answer outside
  the labels, the exception carries \<open>function_return_type\<close>; otherwise the answer goes
  under the reserved key.
\<close>

theorem return_type_query_name:
  assumes "map_of (symbol_table s) return_key = None" and "infer_type ret_val = None"
  shows "(type_provider s = None \<longrightarrow>
            p_statement_return ret_val s = Inl (MissingTypeError ''function_return_type'')) \<and>
         (\<forall>fn answer. type_provider s = Some fn
              \<and> fn ''function_return_type'' valid_dtypes = Inr answer \<longrightarrow>
            (if strip answer \<in> set valid_dtypes
             then \<exists>s'. p_statement_return ret_val s = Inr (ReturnN ret_val, s')
                       \<and> oracle_calls s' = oracle_calls s @ [''function_return_type'']
                       \<and> map_of (symbol_table s') return_key = Some (strip answer)
             else p_statement_return ret_val s = Inl (MissingTypeError ''function_return_type'')))"
  using assms
  by (auto simp: p_statement_return_def ask_type_def Let_def update_conv')

text \<open>
  Witness for C9: \<open>return y;\<close> where \<open>y\<close> is already a \<open>float\<close>, with no provider and with
  the provider that answers \<open>int\<close>.
\<close>

theorem return_type_query_name_witness:
  "map_of (symbol_table typed_xy_state) ''y'' = Some ''float'' \<and>
   p_statement (Return_id ''y'') typed_xy_state = Inl (MissingTypeError ''function_return_type'') \<and>
   (\<exists>s'. p_statement (Return_id ''y'') (register_type_provider (Some int_provider) typed_xy_state)
            = Inr (ReturnN (PyStr ''y''), s')
        \<and> oracle_calls s' = [''function_return_type'']
        \<and> map_of (symbol_table s') return_key = Some ''int'')"
proof -
  let ?s = "register_type_provider (Some int_provider) typed_xy_state"
  have k: "map_of (symbol_table typed_xy_state) return_key = None"
          "map_of (symbol_table ?s) return_key = None"
    by (simp_all add: typed_xy_state_def initial_state_def return_key_def
        register_type_provider_def)
  have i: "infer_type (PyStr ''y'') = None"
    by (rule identifier_no_shape [OF isidentifier_y])
  have p: "type_provider typed_xy_state = None"
    by (simp add: typed_xy_state_def initial_state_def)
  have q: "type_provider ?s = Some int_provider
           \<and> int_provider ''function_return_type'' valid_dtypes = Inr ''int''"
    by (simp add: register_type_provider_def int_provider_def)
  have v: "strip ''int'' \<in> set valid_dtypes"
    by (simp add: strip_int valid_dtypes_def)
  from return_type_query_name [OF k(1) i] p
  have 1: "p_statement (Return_id ''y'') typed_xy_state
             = Inl (MissingTypeError ''function_return_type'')"
    by simp
  from return_type_query_name [OF k(2) i] q v
  have 2: "\<exists>s'. p_statement (Return_id ''y'') ?s = Inr (ReturnN (PyStr ''y''), s')
             \<and> oracle_calls s' = oracle_calls ?s @ [''function_return_type'']
             \<and> map_of (symbol_table s') return_key = Some (strip ''int'')"
    by (simp del: p_statement.simps add: p_statement.simps(7))
  have o: "oracle_calls ?s = []"
    by (simp add: register_type_provider_def typed_xy_state_def initial_state_def)
  have t: "map_of (symbol_table typed_xy_state) ''y'' = Some ''float''"
    by (simp add: typed_xy_state_def initial_state_def)
  from 2 have 3: "\<exists>s'. p_statement (Return_id ''y'') ?s = Inr (ReturnN (PyStr ''y''), s')
             \<and> oracle_calls s' = [''function_return_type'']
             \<and> map_of (symbol_table s') return_key = Some ''int''"
    by (simp only: o strip_int append_Nil)
  from t 1 3 show ?thesis
    by blast
qed

section \<open>The example of scenario 2 and the propagation law\<close>

lemma isidentifier_a: "isidentifier ''a''"
  by (simp add: isidentifier_def xid_start_def xid_continue_def)

lemma spaces_4: "spaces 4 = ''    ''"
  by (simp add: spaces_def numeral_eq_Suc)

text \<open>
  C2, as stated, on \<open>fn f() { x = 5; y = x; return y; }\<close>: the run does call the
  provider. With none registered it fails for \<open>function_return_type\<close>; with the provider
  that answers \<open>int\<close> the run ends having made exactly that query.
\<close>

theorem example_f_oracle_counterexample:
  "parse_then_emit f_example initial_state = Inl (MissingTypeError ''function_return_type'') \<and>
   (case parse_then_emit f_example (register_type_provider (Some int_provider) initial_state) of
      Inl e \<Rightarrow> False
    | Inr (out, s') \<Rightarrow> oracle_calls s' = [''function_return_type''])"
  by (simp add: parse_then_emit_def parse_code_def f_example_def initial_state_def
      p_statement_assign_def handle_assignment_def isidentifier_x p_statement_return_def
      startswith_def endswith_def squote_def dquote_def return_key_def ask_type_def
      register_type_provider_def int_provider_def strip_int valid_dtypes_def
      p_function_def take_return_type_def to_cpp_def Let_def)

text \<open>
  C2, amended: on that program \<open>x\<close> is \<open>int\<close> from the literal and \<open>y\<close> is \<open>int\<close> from
  \<open>x\<close>, neither by a query; the run makes one query, for \<open>function_return_type\<close>,
  because the returned \<open>y\<close> has no literal shape. Its answer is the declared return type;
  with no provider registered the run fails with \<open>MissingTypeError\<close> for that name.
\<close>

theorem example_f_resolution:
  "(type_provider s = None \<longrightarrow>
      parse_then_emit f_example s = Inl (MissingTypeError ''function_return_type'')) \<and>
   (\<forall>fn answer. type_provider s = Some fn
        \<and> fn ''function_return_type'' valid_dtypes = Inr answer
        \<and> strip answer \<in> set valid_dtypes \<longrightarrow>
      (\<exists>s'. parse_then_emit f_example s =
               Inr (header @ strip answer
                      @ '' f() {\<newline>    int x;\<newline>    int y;\<newline>\<newline>    x = 5;\<newline>    y = x;\<newline>    return y;\<newline>}\<newline>\<newline>''
                      @ main_text ''f'', s')
            \<and> symbol_table s' = [(''x'', ''int''), (''y'', ''int'')]
            \<and> oracle_calls s' = oracle_calls s @ [''function_return_type'']))"
  by (auto simp add: parse_then_emit_def parse_code_def f_example_def
      p_statement_assign_def handle_assignment_def isidentifier_x p_statement_return_def
      startswith_def endswith_def squote_def dquote_def return_key_def ask_type_def
      p_function_def take_return_type_def to_cpp_def str_int_5 declarations_def
      declaration_line_def spaces_4 Let_def)

text \<open>Witness for C2: the run with no provider, and with the provider answering \<open>int\<close>.\<close>

theorem example_f_resolution_witness:
  "parse_then_emit f_example initial_state = Inl (MissingTypeError ''function_return_type'') \<and>
   (\<exists>s'. parse_then_emit f_example (register_type_provider (Some int_provider) initial_state) =
            Inr (header
                   @ ''int f() {\<newline>    int x;\<newline>    int y;\<newline>\<newline>    x = 5;\<newline>    y = x;\<newline>    return y;\<newline>}\<newline>\<newline>''
                   @ main_text ''f'', s')
         \<and> symbol_table s' = [(''x'', ''int''), (''y'', ''int'')]
         \<and> oracle_calls s' = [''function_return_type''])"
proof -
  let ?s = "register_type_provider (Some int_provider) initial_state"
  have a: "type_provider initial_state = None"
    by (simp add: initial_state_def)
  have b: "type_provider ?s = Some int_provider
           \<and> int_provider ''function_return_type'' valid_dtypes = Inr ''int''
           \<and> strip ''int'' \<in> set valid_dtypes"
    by (simp add: register_type_provider_def int_provider_def strip_int valid_dtypes_def)
  have o: "oracle_calls ?s = []"
    by (simp add: register_type_provider_def initial_state_def)
  from a example_f_resolution [of initial_state]
  have 1: "parse_then_emit f_example initial_state = Inl (MissingTypeError ''function_return_type'')"
    by blast
  from b example_f_resolution [of ?s]
  have "\<exists>s'. parse_then_emit f_example ?s =
               Inr (header @ strip ''int''
                      @ '' f() {\<newline>    int x;\<newline>    int y;\<newline>\<newline>    x = 5;\<newline>    y = x;\<newline>    return y;\<newline>}\<newline>\<newline>''
                      @ main_text ''f'', s')
            \<and> symbol_table s' = [(''x'', ''int''), (''y'', ''int'')]
            \<and> oracle_calls s' = oracle_calls ?s @ [''function_return_type'']"
    by blast
  then have 2: "\<exists>s'. parse_then_emit f_example ?s =
            Inr (header
                   @ ''int f() {\<newline>    int x;\<newline>    int y;\<newline>\<newline>    x = 5;\<newline>    y = x;\<newline>    return y;\<newline>}\<newline>\<newline>''
                   @ main_text ''f'', s')
         \<and> symbol_table s' = [(''x'', ''int''), (''y'', ''int'')]
         \<and> oracle_calls s' = [''function_return_type'']"
    by (simp add: o strip_int)
  from 1 2 show ?thesis by blast
qed

text \<open>
  C3, as stated, on \<open>fn f() { a = 5; b = a; a = 2.5; }\<close>, which contains the pair: when
  the parse completes \<open>a\<close> is a \<open>float\<close> and \<open>b\<close> is an \<open>int\<close>.
\<close>

theorem reassigned_source_counterexample:
  "(case parse_code reassign_example initial_state of
      Inl e \<Rightarrow> False
    | Inr (parsed, s') \<Rightarrow>
        map_of (symbol_table s') ''a'' = Some ''float''
        \<and> map_of (symbol_table s') ''b'' = Some ''int'')"
  by (simp add: parse_code_def reassign_example_def initial_state_def p_statement_assign_def
      handle_assignment_def isidentifier_a p_function_def take_return_type_def)

text \<open>
  C3, amended: from any state, right after \<open>a = <number>; b = a;\<close> has been parsed the
  table holds for \<open>b\<close> the type it holds for \<open>a\<close>, the literal's; the pair makes no query
  and cannot fail. Later statements may change either entry.
\<close>

theorem literal_then_identifier_pair:
  assumes "is_number v" and "isidentifier a"
  shows "\<exists>ns s'. p_stmt_list [Assign_number a v, Assign_id b a] s = Inr (ns, s')
           \<and> map_of (symbol_table s') b = map_of (symbol_table s') a
           \<and> map_of (symbol_table s') a = infer_type v
           \<and> infer_type v \<noteq> None
           \<and> oracle_calls s' = oracle_calls s"
  using assms
  by (cases v)
     (auto simp: is_number_def p_statement_assign_def handle_assignment_def update_conv')

text \<open>Witness for C3: \<open>a = 5; b = a;\<close> parsed after \<open>x = 5; y = 2.5;\<close>.\<close>

theorem literal_then_identifier_pair_witness:
  "\<exists>ns s'. p_stmt_list [Assign_number ''a'' (PyInt 5), Assign_id ''b'' ''a''] typed_xy_state
              = Inr (ns, s')
           \<and> map_of (symbol_table s') ''b'' = Some ''int''
           \<and> map_of (symbol_table s') ''a'' = Some ''int''
           \<and> oracle_calls s' = []"
proof -
  have n: "is_number (PyInt 5)"
    by (simp add: is_number_def)
  have o: "oracle_calls typed_xy_state = []"
    by (simp add: typed_xy_state_def initial_state_def)
  from literal_then_identifier_pair [OF n isidentifier_a, of "''b''" typed_xy_state]
  show ?thesis
    by (simp only: o infer_type.simps) metis
qed

section \<open>Runs do not depend on what earlier runs left\<close>

lemma same_result_Inl [simp]: "same_result (Inl e) r \<longleftrightarrow> r = Inl e"
  by (auto simp: same_result_def split: sum.splits)

lemma same_result_Inr [simp]:
  "same_result (Inr (x, s)) r \<longleftrightarrow> (\<exists>t. r = Inr (x, t) \<and> same_globals s t)"
  by (auto simp: same_result_def split: sum.splits)

lemma same_result_outcome: "same_result r1 r2 \<Longrightarrow> outcome r1 = outcome r2"
  by (auto simp: same_result_def outcome_def split: sum.splits)

lemma same_globals_table:
  "same_globals s t \<Longrightarrow> same_globals (s\<lparr>symbol_table := x\<rparr>) (t\<lparr>symbol_table := x\<rparr>)"
  by (simp add: same_globals_def)

lemma same_globals_flag:
  "same_globals s t \<Longrightarrow> same_globals (s\<lparr>has_return := x\<rparr>) (t\<lparr>has_return := x\<rparr>)"
  by (simp add: same_globals_def)

lemma same_globals_update:
  "same_globals s t \<Longrightarrow>
   same_globals (s\<lparr>symbol_table := f (symbol_table s)\<rparr>)
                (t\<lparr>symbol_table := f (symbol_table t)\<rparr>)"
  by (simp add: same_globals_def)

lemma same_globals_tableD: "same_globals s t \<Longrightarrow> symbol_table t = symbol_table s"
  by (simp add: same_globals_def)

lemma sim_bind:
  assumes "same_result r1 r2"
    and "\<And>x s t. same_globals s t \<Longrightarrow> same_result (k x s) (k' x t)"
  shows "same_result (case r1 of Inl e \<Rightarrow> Inl e | Inr (x, s) \<Rightarrow> k x s)
                     (case r2 of Inl e \<Rightarrow> Inl e | Inr (x, t) \<Rightarrow> k' x t)"
proof (cases r1)
  case (Inl e)
  with assms(1) show ?thesis by simp
next
  case (Inr p)
  obtain x s where p: "p = (x, s)" by (cases p)
  with Inr assms(1) obtain t where "r2 = Inr (x, t)" "same_globals s t" by auto
  with Inr p assms(2) [of s t x] show ?thesis by simp
qed

lemma ask_type_sim: "same_globals s t \<Longrightarrow> same_result (ask_type var s) (ask_type var t)"
  by (cases "ask_type var s")
     (auto simp: ask_type_def same_globals_def Let_def split: option.splits sum.splits if_splits)

lemma ask_store_sim:
  assumes "same_globals s t"
  shows "same_result
           (case ask_type var s of Inl e \<Rightarrow> Inl e
            | Inr (ty, s1) \<Rightarrow> Inr (f ty, s1\<lparr>symbol_table := g ty (symbol_table s1)\<rparr>))
           (case ask_type var t of Inl e \<Rightarrow> Inl e
            | Inr (ty, s1) \<Rightarrow> Inr (f ty, s1\<lparr>symbol_table := g ty (symbol_table s1)\<rparr>))"
  by (rule sim_bind [OF ask_type_sim [OF assms]]) (simp add: same_globals_def)

lemma handle_assignment_sim:
  assumes "same_globals s t"
  shows "same_result (handle_assignment var val e s) (handle_assignment var val e t)"
proof -
  note tbl = same_globals_tableD [OF assms]
  show ?thesis
  proof (cases val)
    case (PyStr v)
    show ?thesis
      unfolding handle_assignment_def PyStr pyval.case tbl
      by (auto intro!: sim_bind ask_type_sim assms same_globals_table
               simp: same_globals_tableD split: option.split)
  qed (simp_all add: handle_assignment_def tbl same_globals_table [OF assms])
qed

lemma p_statement_assign_sim:
  "same_globals s t \<Longrightarrow>
   same_result (p_statement_assign var val e s) (p_statement_assign var val e t)"
  unfolding p_statement_assign_def
  by (rule sim_bind [OF handle_assignment_sim]) simp_all

lemma p_expression_sim:
  "same_globals s t \<Longrightarrow> same_result (p_expression x s) (p_expression x t)"
proof (induction x arbitrary: s t)
  case (Factor_id v)
  note tbl = same_globals_tableD [OF Factor_id]
  show ?case
    unfolding p_expression.simps tbl
    by (auto intro!: ask_store_sim Factor_id split: option.split)
qed (auto intro!: sim_bind)

lemma p_condition_sim:
  "same_globals s t \<Longrightarrow> same_result (p_condition c s) (p_condition c t)"
  by (cases c) (auto intro!: sim_bind p_expression_sim)

lemma p_condition_opt_sim:
  "same_globals s t \<Longrightarrow> same_result (p_condition_opt c s) (p_condition_opt c t)"
  by (cases c) (auto intro!: sim_bind p_condition_sim)

lemma p_for_clause_sim:
  "same_globals s t \<Longrightarrow> same_result (p_for_clause c s) (p_for_clause c t)"
  by (cases c) (auto intro!: sim_bind p_expression_sim p_statement_assign_sim)

lemma p_statement_return_sim:
  assumes "same_globals s t"
  shows "same_result (p_statement_return v s) (p_statement_return v t)"
proof -
  note tbl = same_globals_tableD [OF assms]
  have f: "same_globals (s\<lparr>has_return := True\<rparr>) (t\<lparr>has_return := True\<rparr>)"
    by (rule same_globals_flag [OF assms])
  show ?thesis
    unfolding p_statement_return_def Let_def
    using f
    by (auto intro!: ask_store_sim same_globals_table simp: tbl split: option.split)
qed

lemma p_stmt_list_sim_aux:
  assumes "\<And>st s t. st \<in> set sts \<Longrightarrow> same_globals s t
             \<Longrightarrow> same_result (p_statement st s) (p_statement st t)"
    and "same_globals s t"
  shows "same_result (p_stmt_list sts s) (p_stmt_list sts t)"
  using assms
proof (induction sts arbitrary: s t)
  case Nil
  then show ?case by simp
next
  case (Cons st sts)
  show ?case
    unfolding p_stmt_list.simps
    by (rule sim_bind, rule Cons.prems(1), simp, rule Cons.prems(2),
        rule sim_bind, rule Cons.IH, rule Cons.prems(1), simp_all)
qed

lemma p_statement_sim:
  "same_globals s t \<Longrightarrow> same_result (p_statement st s) (p_statement st t)"
proof (induction st arbitrary: s t)
  case (Assign_number var n)
  then show ?case by (auto intro!: sim_bind p_statement_assign_sim)
next
  case (Assign_id var v)
  then show ?case by (auto intro!: sim_bind p_statement_assign_sim)
next
  case (Assign_expr var x)
  then show ?case by (auto intro!: sim_bind p_statement_assign_sim p_expression_sim)
next
  case (If_stmt c body)
  show ?case
    unfolding p_statement.simps
    by (intro sim_bind p_condition_sim If_stmt.prems p_stmt_list_sim_aux If_stmt.IH) simp_all
next
  case (While_stmt c body)
  show ?case
    unfolding p_statement.simps
    by (intro sim_bind p_condition_sim While_stmt.prems p_stmt_list_sim_aux While_stmt.IH)
       simp_all
next
  case (For_stmt ini c upd body)
  show ?case
    unfolding p_statement.simps
    by (intro sim_bind p_for_clause_sim p_condition_opt_sim For_stmt.prems
          p_stmt_list_sim_aux For_stmt.IH) simp_all
next
  case (Return_id v)
  then show ?case by (simp add: p_statement_return_sim)
next
  case (Return_number n)
  then show ?case by (simp add: p_statement_return_sim)
next
  case (Return_expr x)
  then show ?case by (auto intro!: sim_bind p_statement_return_sim p_expression_sim)
qed

lemma p_stmt_list_sim:
  "same_globals s t \<Longrightarrow> same_result (p_stmt_list sts s) (p_stmt_list sts t)"
  by (rule p_stmt_list_sim_aux) (rule p_statement_sim)

lemma ensure_params_sim:
  "same_globals s t \<Longrightarrow> same_result (ensure_params ps s) (ensure_params ps t)"
proof (induction ps arbitrary: s t)
  case Nil
  then show ?case by simp
next
  case (Cons p ps)
  note tbl = same_globals_tableD [OF Cons.prems]
  show ?case
    unfolding ensure_params.simps tbl
    by (auto intro!: sim_bind ask_type_sim Cons.prems Cons.IH same_globals_update
             split: option.split)
qed

lemma take_return_type_sim:
  "same_globals s t \<Longrightarrow>
   fst (take_return_type t) = fst (take_return_type s)
   \<and> same_globals (snd (take_return_type s)) (snd (take_return_type t))"
  by (auto simp: take_return_type_def same_globals_def split: option.splits)

lemma p_function_sim:
  assumes "same_globals s t"
  shows "same_result (p_function name ps body s) (p_function name ps body t)"
proof -
  obtain r s1 where a: "take_return_type s = (r, s1)" by (cases "take_return_type s")
  obtain r' t1 where b: "take_return_type t = (r', t1)" by (cases "take_return_type t")
  from take_return_type_sim [OF assms] a b have "r' = r" "same_globals s1 t1" by simp_all
  then show ?thesis
    unfolding p_function_def a b
    by (auto intro!: sim_bind ensure_params_sim)
qed

lemma p_program_sim:
  "same_globals s t \<Longrightarrow> same_result (p_program code s) (p_program code t)"
  by (cases code) (auto intro!: sim_bind p_stmt_list_sim p_function_sim)

lemma parse_code_sim:
  "type_provider s = type_provider t \<Longrightarrow> same_result (parse_code code s) (parse_code code t)"
  unfolding parse_code_def
  by (rule p_program_sim) (simp add: same_globals_def)

lemma param_parts_sim:
  "same_globals s t \<Longrightarrow> same_result (param_parts ps s) (param_parts ps t)"
proof (induction ps arbitrary: s t)
  case Nil
  then show ?case by simp
next
  case (Cons p ps)
  note tbl = same_globals_tableD [OF Cons.prems]
  show ?case
    unfolding param_parts.simps tbl
    by (auto intro!: sim_bind ask_store_sim Cons.prems Cons.IH split: option.split)
qed

lemma generate_cpp_sim_aux:
  assumes "\<And>n i d s t. n \<in> set ns \<Longrightarrow> same_globals s t
             \<Longrightarrow> same_result (generate_stmt n i d s) (generate_stmt n i d t)"
    and "same_globals s t"
  shows "same_result (generate_cpp ns i d s) (generate_cpp ns i d t)"
  using assms
proof (induction ns arbitrary: s t)
  case Nil
  then show ?case by simp
next
  case (Cons n ns)
  show ?case
    unfolding generate_cpp.simps
    by (rule sim_bind, rule Cons.prems(1), simp, rule Cons.prems(2),
        rule sim_bind, rule Cons.IH, rule Cons.prems(1), simp_all)
qed

lemma generate_stmt_sim:
  "same_globals s t \<Longrightarrow> same_result (generate_stmt n i d s) (generate_stmt n i d t)"
proof (induction n arbitrary: s t i d)
  case (FunctionN name ps body ret_type)
  have k: "\<And>parts s1 t1. same_globals s1 t1 \<Longrightarrow>
      same_result
        (case collect_vars (symbol_table s1) (set ps) of
           (vars_to_declare, func_declared) \<Rightarrow>
             (case generate_cpp body (i + 1) func_declared s1 of
                Inl e \<Rightarrow> Inl e
              | Inr (body_cpp, s2) \<Rightarrow>
                  Inr (ret_type @ '' '' @ name @ ''('' @ join '', '' parts @ '') {\<newline>''
                         @ declarations i vars_to_declare
                         @ body_cpp @ ''}\<newline>\<newline>'', s2)))
        (case collect_vars (symbol_table t1) (set ps) of
           (vars_to_declare, func_declared) \<Rightarrow>
             (case generate_cpp body (i + 1) func_declared t1 of
                Inl e \<Rightarrow> Inl e
              | Inr (body_cpp, s2) \<Rightarrow>
                  Inr (ret_type @ '' '' @ name @ ''('' @ join '', '' parts @ '') {\<newline>''
                         @ declarations i vars_to_declare
                         @ body_cpp @ ''}\<newline>\<newline>'', s2)))"
  proof -
    fix parts s1 t1
    assume g: "same_globals s1 t1"
    note tbl = same_globals_tableD [OF g]
    obtain vs fd where c: "collect_vars (symbol_table s1) (set ps) = (vs, fd)"
      by (cases "collect_vars (symbol_table s1) (set ps)")
    show "?thesis parts s1 t1"
      unfolding tbl c prod.case
      by (intro sim_bind generate_cpp_sim_aux FunctionN.IH g) simp_all
  qed
  show ?case
    unfolding generate_stmt.simps
    by (rule sim_bind [OF param_parts_sim [OF FunctionN.prems]]) (rule k)
next
  case (AssignN a)
  then show ?case by simp
next
  case (IfN c body)
  show ?case
    unfolding generate_stmt.simps
    by (intro sim_bind generate_cpp_sim_aux IfN.IH IfN.prems) simp_all
next
  case (WhileN c body)
  show ?case
    unfolding generate_stmt.simps
    by (intro sim_bind generate_cpp_sim_aux WhileN.IH WhileN.prems) simp_all
next
  case (ForN ini c upd body)
  show ?case
    unfolding generate_stmt.simps
    by (intro sim_bind generate_cpp_sim_aux ForN.IH ForN.prems) simp_all
next
  case (ReturnN v)
  then show ?case by simp
qed

lemma generate_cpp_sim:
  "same_globals s t \<Longrightarrow> same_result (generate_cpp ns i d s) (generate_cpp ns i d t)"
  by (rule generate_cpp_sim_aux) (rule generate_stmt_sim)

lemma to_cpp_sim:
  "same_globals s t \<Longrightarrow> same_result (to_cpp parsed s) (to_cpp parsed t)"
  unfolding to_cpp_def
  by (rule sim_bind [OF generate_cpp_sim]) (auto split: list.split node.split)

lemma parse_then_emit_sim:
  "type_provider s = type_provider t \<Longrightarrow>
   same_result (parse_then_emit code s) (parse_then_emit code t)"
  unfolding parse_then_emit_def
  by (rule sim_bind [OF parse_code_sim]) (auto intro: to_cpp_sim)

text \<open>
  C5: two runs on the same source with the same provider registered end the same way,
  with the same text or the same exception, whatever table, flag and query record each
  starts from.
\<close>

theorem parse_then_emit_deterministic:
  assumes "type_provider s1 = type_provider s2"
  shows "outcome (parse_then_emit code s1) = outcome (parse_then_emit code s2)"
  by (rule same_result_outcome [OF parse_then_emit_sim [OF assms]])

text \<open>
  Witness for C5: the run on \<open>fn f() { x = 5; y = x; return y; }\<close> from a state an
  earlier run has used, against the run from the fresh state with the same provider.
\<close>

theorem parse_then_emit_deterministic_witness:
  "symbol_table leftover_state \<noteq> [] \<and> has_return leftover_state \<and>
   outcome (parse_then_emit f_example leftover_state)
     = outcome (parse_then_emit f_example
                  (register_type_provider (Some int_provider) initial_state))"
proof -
  have p: "type_provider leftover_state
             = type_provider (register_type_provider (Some int_provider) initial_state)"
    by (simp add: leftover_state_def register_type_provider_def)
  from parse_then_emit_deterministic [OF p, of f_example]
  show ?thesis
    by (simp add: leftover_state_def)
qed

section \<open>What a successful parse leaves in the table\<close>

lemma grows_refl: "grows s {} False s"
  by (simp add: grows_def)

lemma grows_trans: "grows s N r s1 \<Longrightarrow> grows s1 M q s2 \<Longrightarrow> grows s (N \<union> M) (r \<or> q) s2"
  by (auto simp: grows_def)

lemma set_update_subset: "set (AList.update k v al) \<subseteq> insert (k, v) (set al)"
  by (induction al) auto

lemma table_ok_update:
  "table_ok s \<Longrightarrow> ty \<in> set valid_dtypes \<Longrightarrow>
   table_ok (s\<lparr>symbol_table := AList.update k ty (symbol_table s)\<rparr>)"
  using set_update_subset [of k ty "symbol_table s"]
  by (auto simp: table_ok_def distinct_update)

lemma table_ok_lookup:
  "table_ok s \<Longrightarrow> map_of (symbol_table s) k = Some ty \<Longrightarrow> ty \<in> set valid_dtypes"
  by (auto simp: table_ok_def dest: map_of_SomeD)

lemma grows_update:
  "(table_ok s \<Longrightarrow> ty \<in> set valid_dtypes) \<Longrightarrow>
   grows s {k} False (s\<lparr>symbol_table := AList.update k ty (symbol_table s)\<rparr>)"
  by (auto simp: grows_def dom_update table_ok_update)

lemma ask_type_Inr:
  "ask_type var s = Inr (ty, s1) \<Longrightarrow>
   ty \<in> set valid_dtypes \<and> s1 = s\<lparr>oracle_calls := oracle_calls s @ [var]\<rparr>"
  by (auto simp: ask_type_def Let_def split: option.splits sum.splits if_splits)

lemma grows_log: "grows s {} False (s\<lparr>oracle_calls := l\<rparr>)"
  by (simp add: grows_def table_ok_def)

lemma key_in_table: "map_of al k = Some v \<Longrightarrow> k \<in> fst ` set al"
  by (metis domI dom_map_of_conv_image_fst)

lemma key_not_in_table: "map_of al k = None \<longleftrightarrow> k \<notin> fst ` set al"
  by (simp add: map_of_eq_None_iff)

lemma grows_same: "k \<in> fst ` set (symbol_table s) \<Longrightarrow> grows s {k} False s"
  by (auto simp: grows_def)

lemma ask_store_grows:
  assumes "ask_type var s = Inr (ty, s1)"
  shows "grows s {k} False (s1\<lparr>symbol_table := AList.update k ty (symbol_table s1)\<rparr>)"
proof -
  from ask_type_Inr [OF assms] have v: "ty \<in> set valid_dtypes"
    and e: "s1 = s\<lparr>oracle_calls := oracle_calls s @ [var]\<rparr>" by simp_all
  have "grows s ({} \<union> {k}) (False \<or> False)
          (s1\<lparr>symbol_table := AList.update k ty (symbol_table s1)\<rparr>)"
    by (rule grows_trans [OF _ grows_update]) (simp_all add: e grows_log v)
  then show ?thesis by simp
qed

lemma handle_assignment_grows:
  assumes "handle_assignment var val e s = Inr (t, s')"
  shows "grows s (names_of_assignment var val e) False s'"
proof (cases val)
  case (PyInt i)
  with assms show ?thesis
    by (auto simp: handle_assignment_def names_of_assignment_def valid_dtypes_def
             intro!: grows_update)
next
  case (PyFloat f)
  with assms show ?thesis
    by (auto simp: handle_assignment_def names_of_assignment_def valid_dtypes_def
             intro!: grows_update)
next
  case (PyStr v)
  show ?thesis
  proof (cases "\<not> e \<and> isidentifier v")
    case True
    then have n: "names_of_assignment var val e = {v} \<union> {var}"
      by (auto simp: names_of_assignment_def PyStr)
    show ?thesis
    proof (cases "map_of (symbol_table s) v")
      case None
      with assms True PyStr obtain ty s1 where
        a: "ask_type v s = Inr (ty, s1)" and
        s': "s' = s1\<lparr>symbol_table := AList.update var ty (AList.update v ty (symbol_table s1))\<rparr>"
        by (auto simp: handle_assignment_def split: sum.splits)
      let ?m = "s1\<lparr>symbol_table := AList.update v ty (symbol_table s1)\<rparr>"
      have 1: "grows s {v} False ?m" by (rule ask_store_grows [OF a])
      have 2: "grows ?m {var} False (?m\<lparr>symbol_table := AList.update var ty (symbol_table ?m)\<rparr>)"
        using ask_type_Inr [OF a] by (intro grows_update) simp
      from grows_trans [OF 1 2] show ?thesis
        by (simp add: n s')
    next
      case (Some ty)
      with assms True PyStr have
        s': "s' = s\<lparr>symbol_table := AList.update var ty (symbol_table s)\<rparr>"
        by (auto simp: handle_assignment_def)
      have 1: "grows s {v} False s"
        by (rule grows_same [OF key_in_table [OF Some]])
      have 2: "grows s {var} False s'"
        unfolding s' using table_ok_lookup [OF _ Some] by (intro grows_update)
      from grows_trans [OF 1 2] show ?thesis
        by (simp add: n)
    qed
  next
    case False
    then have n: "names_of_assignment var val e = {var}"
      by (auto simp: names_of_assignment_def PyStr)
    show ?thesis
    proof (cases "map_of (symbol_table s) var")
      case None
      with assms False PyStr obtain ty s1 where
        a: "ask_type var s = Inr (ty, s1)" and
        s': "s' = s1\<lparr>symbol_table := AList.update var ty (symbol_table s1)\<rparr>"
        by (auto simp: handle_assignment_def split: sum.splits)
      show ?thesis
        unfolding n s' by (rule ask_store_grows [OF a])
    next
      case (Some ty)
      with assms False PyStr have "s' = s"
        by (auto simp: handle_assignment_def)
      then show ?thesis
        unfolding n by (simp add: grows_same [OF key_in_table [OF Some]])
    qed
  qed
qed

lemma grows_trans':
  "grows s N r s1 \<Longrightarrow> grows s1 M q s2 \<Longrightarrow> N \<union> M = K \<Longrightarrow> (r \<or> q) = p \<Longrightarrow> grows s K p s2"
  using grows_trans by blast

lemma p_expression_grows:
  "p_expression x s = Inr (t, s') \<Longrightarrow>
   grows s (names_of_expression x) False s' \<and> t = expression_text x"
proof (induction x arbitrary: s t s')
  case (Binop_addsub l opr r)
  from Binop_addsub.prems obtain a s1 b where
    1: "p_expression l s = Inr (a, s1)" and 2: "p_expression r s1 = Inr (b, s')"
    and t: "t = a @ '' '' @ opr @ '' '' @ b"
    by (auto split: sum.splits)
  from Binop_addsub.IH(1) [OF 1] Binop_addsub.IH(2) [OF 2] t show ?case
    by (auto intro: grows_trans')
next
  case (Binop_term l opr r)
  from Binop_term.prems obtain a s1 b where
    1: "p_expression l s = Inr (a, s1)" and 2: "p_expression r s1 = Inr (b, s')"
    and t: "t = a @ '' '' @ opr @ '' '' @ b"
    by (auto split: sum.splits)
  from Binop_term.IH(1) [OF 1] Binop_term.IH(2) [OF 2] t show ?case
    by (auto intro: grows_trans')
next
  case (Factor_number n)
  then show ?case by (auto simp: grows_refl)
next
  case (Factor_id v)
  show ?case
  proof (cases "map_of (symbol_table s) v")
    case None
    with Factor_id obtain ty s1 where a: "ask_type v s = Inr (ty, s1)"
      and s': "s' = s1\<lparr>symbol_table := AList.update v ty (symbol_table s1)\<rparr>" and "t = v"
      by (auto split: sum.splits)
    with ask_store_grows [OF a, of v] show ?thesis by simp
  next
    case (Some ty)
    with Factor_id have "s' = s" "t = v" by auto
    with grows_same [OF key_in_table [OF Some]] show ?thesis by simp
  qed
next
  case (Factor_group x)
  from Factor_group.prems obtain a where
    1: "p_expression x s = Inr (a, s')" and t: "t = ''('' @ a @ '')''"
    by (auto split: sum.splits)
  from Factor_group.IH [OF 1] t show ?case by simp
qed

lemma p_condition_grows:
  assumes "p_condition c s = Inr (t, s')"
  shows "grows s (names_of_condition c) False s'"
proof (cases c)
  case (Condition l opr r)
  with assms obtain a s1 b where
    1: "p_expression l s = Inr (a, s1)" and 2: "p_expression r s1 = Inr (b, s')"
    by (auto split: sum.splits)
  from p_expression_grows [OF 1] p_expression_grows [OF 2] Condition show ?thesis
    by (auto intro: grows_trans')
qed

lemma p_condition_opt_grows:
  assumes "p_condition_opt c s = Inr (t, s')"
  shows "grows s (case c of None \<Rightarrow> {} | Some x \<Rightarrow> names_of_condition x) False s'"
proof (cases c)
  case None
  with assms show ?thesis by (simp add: grows_refl)
next
  case (Some x)
  with assms obtain a where "p_condition x s = Inr (a, s')"
    by (auto split: sum.splits)
  with Some show ?thesis by (simp add: p_condition_grows)
qed

lemma p_statement_assign_grows:
  assumes "p_statement_assign var val e s = Inr (a, s')"
  shows "grows s (names_of_assignment var val e) False s'"
proof -
  from assms obtain t where "handle_assignment var val e s = Inr (t, s')"
    by (auto simp: p_statement_assign_def split: sum.splits)
  then show ?thesis by (rule handle_assignment_grows)
qed

lemma p_for_clause_grows:
  assumes "p_for_clause c s = Inr (a, s')"
  shows "grows s (names_of_clause c) False s'"
proof (cases c)
  case (Clause_number var n)
  with assms obtain b where "p_statement_assign var n (is_expr_of n) s = Inr (b, s')"
    by (auto split: sum.splits)
  with Clause_number show ?thesis by (simp add: p_statement_assign_grows)
next
  case (Clause_id var v)
  with assms obtain b where
    "p_statement_assign var (PyStr v) (is_expr_of (PyStr v)) s = Inr (b, s')"
    by (auto split: sum.splits)
  with Clause_id show ?thesis by (simp add: p_statement_assign_grows)
next
  case (Clause_expr var x)
  with assms obtain t s1 b where 1: "p_expression x s = Inr (t, s1)"
    and 2: "p_statement_assign var (PyStr t) (is_expr_of (PyStr t)) s1 = Inr (b, s')"
    by (auto split: sum.splits)
  from p_expression_grows [OF 1] have g: "grows s (names_of_expression x) False s1"
    and t: "t = expression_text x" by simp_all
  from grows_trans [OF g p_statement_assign_grows [OF 2]] t Clause_expr show ?thesis
    by simp
next
  case Clause_empty
  with assms show ?thesis by (simp add: grows_refl)
qed

lemma grows_return:
  assumes "ty \<in> set valid_dtypes" and "symbol_table m = symbol_table s" and "has_return m"
  shows "grows s {} True (m\<lparr>symbol_table := AList.update return_key ty (symbol_table m)\<rparr>)"
proof -
  have "table_ok s \<Longrightarrow> table_ok m"
    by (simp add: table_ok_def assms(2))
  then have "table_ok s \<Longrightarrow>
      table_ok (m\<lparr>symbol_table := AList.update return_key ty (symbol_table m)\<rparr>)"
    by (intro table_ok_update assms(1))
  then show ?thesis
    by (auto simp: grows_def dom_update assms)
qed

lemma p_statement_return_grows:
  assumes "p_statement_return v s = Inr (n, s')"
  shows "grows s {} True s'"
proof (cases "map_of (symbol_table s) return_key")
  case (Some ty)
  with assms have "s' = s\<lparr>has_return := True\<rparr>"
    by (auto simp: p_statement_return_def)
  moreover from key_in_table [OF Some]
  have "insert return_key (fst ` set (symbol_table s)) = fst ` set (symbol_table s)"
    by auto
  ultimately show ?thesis
    by (simp add: grows_def table_ok_def)
next
  case None
  show ?thesis
  proof (cases "infer_type v")
    case (Some ty)
    with None assms have s': "s' = (s\<lparr>has_return := True\<rparr>)\<lparr>symbol_table :=
        AList.update return_key ty (symbol_table (s\<lparr>has_return := True\<rparr>))\<rparr>"
      by (auto simp: p_statement_return_def)
    from Some have "ty \<in> set valid_dtypes"
      by (cases v) (auto simp: valid_dtypes_def split: if_splits)
    then show ?thesis
      unfolding s' by (rule grows_return) simp_all
  next
    case N: None
    with None assms obtain ty s1 where
      a: "ask_type ''function_return_type'' (s\<lparr>has_return := True\<rparr>) = Inr (ty, s1)"
      and s': "s' = s1\<lparr>symbol_table := AList.update return_key ty (symbol_table s1)\<rparr>"
      by (auto simp: p_statement_return_def split: sum.splits)
    from ask_type_Inr [OF a] show ?thesis
      unfolding s' by (intro grows_return) simp_all
  qed
qed

lemma p_stmt_list_grows_aux:
  assumes "\<And>st s n s'. st \<in> set sts \<Longrightarrow> p_statement st s = Inr (n, s')
             \<Longrightarrow> grows s (names_of_statement st) (returns_in_statement st) s'"
    and "p_stmt_list sts s = Inr (ns, s')"
  shows "grows s (names_of_body sts) (returns_in_body sts) s'"
  using assms
proof (induction sts arbitrary: s ns s')
  case Nil
  then show ?case by (simp add: grows_refl)
next
  case (Cons st sts)
  from Cons.prems(2) obtain n s1 ms where 1: "p_statement st s = Inr (n, s1)"
    and 2: "p_stmt_list sts s1 = Inr (ms, s')"
    by (auto split: sum.splits)
  have a: "grows s (names_of_statement st) (returns_in_statement st) s1"
    by (rule Cons.prems(1) [OF _ 1]) simp
  have b: "grows s1 (names_of_body sts) (returns_in_body sts) s'"
    by (rule Cons.IH [OF _ 2]) (rule Cons.prems(1), simp_all)
  from grows_trans [OF a b] show ?case by simp
qed

lemma p_statement_grows:
  "p_statement st s = Inr (n, s') \<Longrightarrow>
   grows s (names_of_statement st) (returns_in_statement st) s'"
proof (induction st arbitrary: s n s')
  case (Assign_number var v)
  then obtain a where "p_statement_assign var v False s = Inr (a, s')"
    by (auto split: sum.splits)
  then show ?case by (simp add: p_statement_assign_grows)
next
  case (Assign_id var v)
  then obtain a where "p_statement_assign var (PyStr v) False s = Inr (a, s')"
    by (auto split: sum.splits)
  then show ?case by (simp add: p_statement_assign_grows)
next
  case (Assign_expr var x)
  then obtain t s1 a where 1: "p_expression x s = Inr (t, s1)"
    and 2: "p_statement_assign var (PyStr t) True s1 = Inr (a, s')"
    by (auto split: sum.splits)
  from p_expression_grows [OF 1] have g: "grows s (names_of_expression x) False s1"
    and t: "t = expression_text x" by simp_all
  from grows_trans [OF g p_statement_assign_grows [OF 2]] t show ?case by simp
next
  case (If_stmt c body)
  from If_stmt.prems obtain ct s1 ns where 1: "p_condition c s = Inr (ct, s1)"
    and 2: "p_stmt_list body s1 = Inr (ns, s')"
    by (auto split: sum.splits)
  have b: "grows s1 (names_of_body body) (returns_in_body body) s'"
    by (rule p_stmt_list_grows_aux [OF _ 2]) (rule If_stmt.IH)
  from grows_trans [OF p_condition_grows [OF 1] b] show ?case by simp
next
  case (While_stmt c body)
  from While_stmt.prems obtain ct s1 ns where 1: "p_condition c s = Inr (ct, s1)"
    and 2: "p_stmt_list body s1 = Inr (ns, s')"
    by (auto split: sum.splits)
  have b: "grows s1 (names_of_body body) (returns_in_body body) s'"
    by (rule p_stmt_list_grows_aux [OF _ 2]) (rule While_stmt.IH)
  from grows_trans [OF p_condition_grows [OF 1] b] show ?case by simp
next
  case (For_stmt ini c upd body)
  from For_stmt.prems obtain i s1 ct s2 u s3 ns where 1: "p_for_clause ini s = Inr (i, s1)"
    and 2: "p_condition_opt c s1 = Inr (ct, s2)"
    and 3: "p_for_clause upd s2 = Inr (u, s3)"
    and 4: "p_stmt_list body s3 = Inr (ns, s')"
    by (auto split: sum.splits)
  have b: "grows s3 (names_of_body body) (returns_in_body body) s'"
    by (rule p_stmt_list_grows_aux [OF _ 4]) (rule For_stmt.IH)
  from grows_trans [OF grows_trans [OF grows_trans [OF p_for_clause_grows [OF 1]
        p_condition_opt_grows [OF 2]] p_for_clause_grows [OF 3]] b]
  show ?case by simp
next
  case (Return_id v)
  then show ?case by (simp add: p_statement_return_grows)
next
  case (Return_number v)
  then show ?case by (simp add: p_statement_return_grows)
next
  case (Return_expr x)
  then obtain t s1 where 1: "p_expression x s = Inr (t, s1)"
    and 2: "p_statement_return (PyStr t) s1 = Inr (n, s')"
    by (auto split: sum.splits)
  from p_expression_grows [OF 1] have g: "grows s (names_of_expression x) False s1"
    by simp
  from grows_trans [OF g p_statement_return_grows [OF 2]] show ?case by simp
qed

lemma p_stmt_list_grows:
  "p_stmt_list sts s = Inr (ns, s') \<Longrightarrow> grows s (names_of_body sts) (returns_in_body sts) s'"
  by (rule p_stmt_list_grows_aux) (rule p_statement_grows)

lemma ensure_params_grows:
  "ensure_params ps s = Inr (u, s') \<Longrightarrow> grows s (set ps) False s'"
proof (induction ps arbitrary: s)
  case Nil
  then show ?case by (simp add: grows_refl)
next
  case (Cons p ps)
  show ?case
  proof (cases "map_of (symbol_table s) p")
    case None
    with Cons.prems obtain ty s1 where a: "ask_type p s = Inr (ty, s1)"
      and r: "ensure_params ps (s1\<lparr>symbol_table := AList.update p ty (symbol_table s1)\<rparr>)
                = Inr (u, s')"
      by (auto split: sum.splits)
    from grows_trans [OF ask_store_grows [OF a, of p] Cons.IH [OF r]] show ?thesis
      by simp
  next
    case (Some ty)
    with Cons.prems have r: "ensure_params ps s = Inr (u, s')" by simp
    from grows_trans [OF grows_same [OF key_in_table [OF Some]] Cons.IH [OF r]] show ?thesis
      by simp
  qed
qed

section \<open>The reserved key and the declared return type\<close>

lemma grows_from_reset:
  assumes "grows (s\<lparr>symbol_table := [], has_return := False\<rparr>) N r s1"
  shows "fst ` set (symbol_table s1) = N \<union> (if r then {return_key} else {})"
    and "has_return s1 = r" and "table_ok s1"
  using assms by (simp_all add: grows_def table_ok_def)

text \<open>
  C6, amended: for a function that parses, looking at the table once the body has been
  reduced and before \<open>p_function\<close> runs. If a \<open>return\<close> was parsed the reserved key is
  there and holds the declared return type; if none was, the declared type is \<open>void\<close>;
  and provided the program uses no variable named like the reserved key, the key is
  there only if a \<open>return\<close> was parsed.
\<close>

theorem return_key_iff_return:
  assumes "parse_code (Fn name params body) s = Inr (parsed, s2)"
  shows "\<exists>ns s1 ret_type.
           p_stmt_list body (s\<lparr>symbol_table := [], has_return := False\<rparr>) = Inr (ns, s1)
           \<and> parsed = [FunctionN name params ns ret_type]
           \<and> (return_key \<notin> names_of_body body \<longrightarrow>
                (return_key \<in> fst ` set (symbol_table s1) \<longleftrightarrow> returns_in_body body))
           \<and> (returns_in_body body \<longrightarrow> map_of (symbol_table s1) return_key = Some ret_type)
           \<and> (\<not> returns_in_body body \<longrightarrow> ret_type = ''void'')"
proof -
  let ?r = "s\<lparr>symbol_table := [], has_return := False\<rparr>"
  from assms obtain ns s1 f where 1: "p_stmt_list body ?r = Inr (ns, s1)"
    and 2: "p_function name params ns s1 = Inr (f, s2)" and p: "parsed = [f]"
    by (auto simp: parse_code_def split: sum.splits)
  obtain rt s1' where t: "take_return_type s1 = (rt, s1')"
    by (cases "take_return_type s1")
  with 2 have f: "f = FunctionN name params ns rt"
    by (auto simp: p_function_def split: sum.splits)
  note g = grows_from_reset [OF p_stmt_list_grows [OF 1]]
  have a: "return_key \<notin> names_of_body body \<longrightarrow>
             (return_key \<in> fst ` set (symbol_table s1) \<longleftrightarrow> returns_in_body body)"
    by (simp add: g(1))
  have b: "returns_in_body body \<longrightarrow> map_of (symbol_table s1) return_key = Some rt"
  proof
    assume r: "returns_in_body body"
    with g(1) have "return_key \<in> fst ` set (symbol_table s1)" by simp
    then have "map_of (symbol_table s1) return_key \<noteq> None"
      by (simp add: key_not_in_table)
    then obtain ty where "map_of (symbol_table s1) return_key = Some ty"
      by blast
    with t r g(2) show "map_of (symbol_table s1) return_key = Some rt"
      by (simp add: take_return_type_def)
  qed
  have c: "\<not> returns_in_body body \<longrightarrow> rt = ''void''"
    using t g(2) by (auto simp: take_return_type_def)
  from 1 p f a b c show ?thesis by blast
qed

text \<open>
  C6, as stated, on the body \<open>__return_type__ = 5;\<close>: no \<open>return\<close> is parsed and the
  reserved key is in the table, put there as an ordinary variable.
\<close>

theorem reserved_name_variable_counterexample:
  "\<not> returns_in_body [Assign_number ''__return_type__'' (PyInt 5)] \<and>
   (case p_stmt_list [Assign_number ''__return_type__'' (PyInt 5)]
           (initial_state\<lparr>symbol_table := [], has_return := False\<rparr>) of
      Inl e \<Rightarrow> False
    | Inr (ns, s1) \<Rightarrow> map_of (symbol_table s1) return_key = Some ''int'')"
  by (simp add: p_statement_assign_def handle_assignment_def initial_state_def return_key_def)

lemma outcome_InrD: "outcome r = Inr x \<Longrightarrow> \<exists>s. r = Inr (x, s)"
  by (auto simp: outcome_def split: sum.splits)

text \<open>
  Witness for C6: \<open>fn f() { x = 5; y = x; return y; }\<close> with the provider answering
  \<open>int\<close>, and \<open>fn g() { x = 5; }\<close>.
\<close>

theorem return_key_iff_return_witness:
  "(\<exists>ns s1. p_stmt_list [Assign_number ''x'' (PyInt 5), Assign_id ''y'' ''x'', Return_id ''y'']
               ((register_type_provider (Some int_provider) initial_state)
                  \<lparr>symbol_table := [], has_return := False\<rparr>) = Inr (ns, s1)
            \<and> return_key \<in> fst ` set (symbol_table s1)
            \<and> map_of (symbol_table s1) return_key = Some ''int'') \<and>
   (\<exists>ns s1. p_stmt_list [Assign_number ''x'' (PyInt 5)]
               (initial_state\<lparr>symbol_table := [], has_return := False\<rparr>) = Inr (ns, s1)
            \<and> return_key \<notin> fst ` set (symbol_table s1)) \<and>
   outcome (parse_code x_example initial_state)
     = Inr [FunctionN ''g'' [] [AssignN (AssignNode ''x'' ''5'')] ''void'']"
proof -
  let ?st = "register_type_provider (Some int_provider) initial_state"
  let ?fb = "[Assign_number ''x'' (PyInt 5), Assign_id ''y'' ''x'', Return_id ''y'']"
  let ?xb = "[Assign_number ''x'' (PyInt 5)]"
  have "outcome (parse_code (Fn ''f'' [] ?fb) ?st) =
          Inr [FunctionN ''f'' []
                 [AssignN (AssignNode ''x'' ''5''), AssignN (AssignNode ''y'' ''x''),
                  ReturnN (PyStr ''y'')] ''int'']"
    by (simp add: outcome_def parse_code_def initial_state_def
        p_statement_assign_def handle_assignment_def isidentifier_x p_statement_return_def
        startswith_def endswith_def squote_def dquote_def return_key_def ask_type_def
        register_type_provider_def int_provider_def strip_int valid_dtypes_def
        p_function_def take_return_type_def str_int_5 Let_def)
  from outcome_InrD [OF this] obtain S where
    h1: "parse_code (Fn ''f'' [] ?fb) ?st =
          Inr ([FunctionN ''f'' []
                 [AssignN (AssignNode ''x'' ''5''), AssignN (AssignNode ''y'' ''x''),
                  ReturnN (PyStr ''y'')] ''int''], S)" ..
  have r1: "returns_in_body ?fb" by simp
  have n1: "return_key \<notin> names_of_body ?fb"
    by (simp add: names_of_assignment_def return_key_def)
  from return_key_iff_return [OF h1] r1 n1
  have 1: "\<exists>ns s1. p_stmt_list ?fb (?st\<lparr>symbol_table := [], has_return := False\<rparr>) = Inr (ns, s1)
            \<and> return_key \<in> fst ` set (symbol_table s1)
            \<and> map_of (symbol_table s1) return_key = Some ''int''"
    by auto
  have o2: "outcome (parse_code (Fn ''g'' [] ?xb) initial_state) =
          Inr [FunctionN ''g'' [] [AssignN (AssignNode ''x'' ''5'')] ''void'']"
    by (simp add: outcome_def parse_code_def initial_state_def
        p_statement_assign_def handle_assignment_def
        p_function_def take_return_type_def str_int_5)
  from outcome_InrD [OF this] obtain T where
    h2: "parse_code (Fn ''g'' [] ?xb) initial_state =
          Inr ([FunctionN ''g'' [] [AssignN (AssignNode ''x'' ''5'')] ''void''], T)" ..
  have r2: "\<not> returns_in_body ?xb" by simp
  have n2: "return_key \<notin> names_of_body ?xb"
    by (simp add: names_of_assignment_def return_key_def)
  from return_key_iff_return [OF h2] r2 n2
  have 2: "\<exists>ns s1. p_stmt_list ?xb (initial_state\<lparr>symbol_table := [], has_return := False\<rparr>)
               = Inr (ns, s1)
            \<and> return_key \<notin> fst ` set (symbol_table s1)"
    by auto
  from 1 2 o2 show ?thesis
    by (simp only: x_example_def)
qed

section \<open>Declarations in the generated text\<close>

lemma p_stmt_list_function_free_aux:
  assumes "\<And>st s n s'. st \<in> set sts \<Longrightarrow> p_statement st s = Inr (n, s') \<Longrightarrow> function_free n"
    and "p_stmt_list sts s = Inr (ns, s')"
  shows "\<forall>n \<in> set ns. function_free n"
  using assms
proof (induction sts arbitrary: s ns s')
  case Nil
  then show ?case by simp
next
  case (Cons st sts)
  from Cons.prems(2) obtain n s1 ms where 1: "p_statement st s = Inr (n, s1)"
    and 2: "p_stmt_list sts s1 = Inr (ms, s')" and ns: "ns = n # ms"
    by (auto split: sum.splits)
  have a: "function_free n"
    by (rule Cons.prems(1) [OF _ 1]) simp
  have b: "\<forall>m \<in> set ms. function_free m"
    by (rule Cons.IH [OF _ 2]) (rule Cons.prems(1), simp_all)
  from a b ns show ?case by simp
qed

lemma p_statement_return_function_free:
  "p_statement_return v s = Inr (n, s') \<Longrightarrow> function_free n"
  by (auto simp: p_statement_return_def Let_def split: option.splits sum.splits)

lemma p_statement_function_free:
  "p_statement st s = Inr (n, s') \<Longrightarrow> function_free n"
proof (induction st arbitrary: s n s')
  case (If_stmt c body)
  from If_stmt.prems obtain ct s1 ns where 2: "p_stmt_list body s1 = Inr (ns, s')"
    and n: "n = IfN ct ns"
    by (auto split: sum.splits)
  from p_stmt_list_function_free_aux [OF If_stmt.IH 2] n show ?case by simp
next
  case (While_stmt c body)
  from While_stmt.prems obtain ct s1 ns where 2: "p_stmt_list body s1 = Inr (ns, s')"
    and n: "n = WhileN ct ns"
    by (auto split: sum.splits)
  from p_stmt_list_function_free_aux [OF While_stmt.IH 2] n show ?case by simp
next
  case (For_stmt ini c upd body)
  from For_stmt.prems obtain i ct u s3 ns where 2: "p_stmt_list body s3 = Inr (ns, s')"
    and n: "n = ForN i ct u ns"
    by (auto split: sum.splits)
  from p_stmt_list_function_free_aux [OF For_stmt.IH 2] n show ?case by simp
qed (auto split: sum.splits dest: p_statement_return_function_free)

lemma p_stmt_list_function_free:
  "p_stmt_list sts s = Inr (ns, s') \<Longrightarrow> \<forall>n \<in> set ns. function_free n"
  by (rule p_stmt_list_function_free_aux) (rule p_statement_function_free)

lemma generate_cpp_pure_aux:
  assumes "\<And>n i. n \<in> set ns \<Longrightarrow> \<exists>txt. \<forall>d t. generate_stmt n i d t = Inr (txt, t)"
  shows "\<exists>txt. \<forall>d t. generate_cpp ns i d t = Inr (txt, t)"
  using assms
proof (induction ns)
  case Nil
  then show ?case by simp
next
  case (Cons n ns)
  from Cons.prems [of n i] obtain a where a: "\<And>d t. generate_stmt n i d t = Inr (a, t)"
    by auto
  from Cons.IH Cons.prems obtain b where b: "\<And>d t. generate_cpp ns i d t = Inr (b, t)"
    by (metis list.set_intros(2))
  have "\<forall>d t. generate_cpp (n # ns) i d t = Inr (a @ b, t)"
    by (simp add: a b)
  then show ?case ..
qed

lemma generate_stmt_pure:
  "function_free n \<Longrightarrow> \<exists>txt. \<forall>d t. generate_stmt n i d t = Inr (txt, t)"
proof (induction n arbitrary: i)
  case (FunctionN name ps body ret_type)
  then show ?case by simp
next
  case (AssignN a)
  then show ?case by simp
next
  case (IfN c body)
  then have "\<And>n i. n \<in> set body \<Longrightarrow> \<exists>txt. \<forall>d t. generate_stmt n i d t = Inr (txt, t)"
    by simp
  then have "\<exists>txt. \<forall>d t. generate_cpp body (i + 1) d t = Inr (txt, t)"
    by (rule generate_cpp_pure_aux)
  then obtain b where "\<And>d t. generate_cpp body (i + 1) d t = Inr (b, t)" by auto
  then have "\<forall>d t. generate_stmt (IfN c body) i d t = Inr (generate_if_cpp c i b, t)"
    by simp
  then show ?case ..
next
  case (WhileN c body)
  then have "\<And>n i. n \<in> set body \<Longrightarrow> \<exists>txt. \<forall>d t. generate_stmt n i d t = Inr (txt, t)"
    by simp
  then have "\<exists>txt. \<forall>d t. generate_cpp body (i + 1) d t = Inr (txt, t)"
    by (rule generate_cpp_pure_aux)
  then obtain b where "\<And>d t. generate_cpp body (i + 1) d t = Inr (b, t)" by auto
  then have "\<forall>d t. generate_stmt (WhileN c body) i d t = Inr (generate_while_cpp c i b, t)"
    by simp
  then show ?case ..
next
  case (ForN ini c upd body)
  then have "\<And>n i. n \<in> set body \<Longrightarrow> \<exists>txt. \<forall>d t. generate_stmt n i d t = Inr (txt, t)"
    by simp
  then have "\<exists>txt. \<forall>d t. generate_cpp body (i + 1) d t = Inr (txt, t)"
    by (rule generate_cpp_pure_aux)
  then obtain b where "\<And>d t. generate_cpp body (i + 1) d t = Inr (b, t)" by auto
  then have "\<forall>d t. generate_stmt (ForN ini c upd body) i d t
               = Inr (generate_for_cpp ini c upd i b, t)"
    by simp
  then show ?case ..
next
  case (ReturnN v)
  then show ?case by simp
qed

lemma generate_cpp_pure:
  "\<forall>n \<in> set ns. function_free n \<Longrightarrow> \<exists>txt. \<forall>d t. generate_cpp ns i d t = Inr (txt, t)"
  by (rule generate_cpp_pure_aux) (simp add: generate_stmt_pure)

lemma param_parts_typed:
  assumes "table_ok s" and "set ps \<subseteq> fst ` set (symbol_table s)"
  shows "\<exists>parts. param_parts ps s = Inr (parts, s)
           \<and> list_all2 (\<lambda>p part. \<exists>d \<in> set valid_dtypes. part = d @ '' '' @ p) ps parts"
  using assms(2)
proof (induction ps)
  case Nil
  then show ?case by simp
next
  case (Cons p ps)
  then have "map_of (symbol_table s) p \<noteq> None"
    by (simp add: key_not_in_table)
  then obtain d where d: "map_of (symbol_table s) p = Some d" by blast
  from table_ok_lookup [OF assms(1) d] have v: "d \<in> set valid_dtypes" .
  then have ne: "d \<noteq> []" by (auto simp: valid_dtypes_def)
  from Cons obtain parts where r: "param_parts ps s = Inr (parts, s)"
    and l: "list_all2 (\<lambda>p part. \<exists>d \<in> set valid_dtypes. part = d @ '' '' @ p) ps parts"
    by auto
  have "param_parts (p # ps) s = Inr ((d @ '' '' @ p) # parts, s)"
    by (simp add: d ne r)
  with l v show ?case by auto
qed

lemma collect_vars_filter:
  "distinct (map fst tbl) \<Longrightarrow> \<forall>p \<in> set tbl. snd p \<noteq> [] \<Longrightarrow>
   fst (collect_vars tbl D) = filter (\<lambda>p. fst p \<notin> D) tbl"
proof (induction tbl arbitrary: D)
  case Nil
  then show ?case by simp
next
  case (Cons e tbl)
  obtain var dtype where e: "e = (var, dtype)" by (cases e)
  from Cons.prems e have nv: "var \<notin> fst ` set tbl" and ne: "dtype \<noteq> []"
    and dt: "distinct (map fst tbl)" and al: "\<forall>p \<in> set tbl. snd p \<noteq> []"
    by auto
  show ?case
  proof (cases "var \<in> D")
    case True
    with Cons.IH [OF dt al, of D] e show ?thesis by simp
  next
    case False
    from nv have "filter (\<lambda>p. fst p \<notin> insert var D) tbl = filter (\<lambda>p. fst p \<notin> D) tbl"
      by (intro filter_cong) auto
    moreover obtain vs fd where c: "collect_vars tbl (insert var D) = (vs, fd)"
      by (cases "collect_vars tbl (insert var D)")
    moreover from Cons.IH [OF dt al, of "insert var D"] c
    have "vs = filter (\<lambda>p. fst p \<notin> insert var D) tbl" by simp
    ultimately show ?thesis
      using False ne e by simp
  qed
qed

lemma count_distinct_keys:
  "distinct (map fst xs) \<Longrightarrow>
   length (filter (\<lambda>p. fst p = v) xs) = (if v \<in> fst ` set xs then 1 else 0)"
  by (induction xs) (auto simp: image_iff)

lemma keys_delete: "fst ` set (AList.delete k al) = fst ` set al - {k}"
  by (induction al) auto

lemma set_delete_subset: "set (AList.delete k al) \<subseteq> set al"
  by (induction al) auto

lemma keys_filter: "fst ` set (filter (\<lambda>p. fst p \<notin> D) al) = fst ` set al - D"
  by (induction al) auto

lemma take_return_type_effect:
  assumes "take_return_type s1 = (rt, s1')" and "table_ok s1" and "has_return s1 = r"
    and "r \<longrightarrow> return_key \<in> fst ` set (symbol_table s1)"
  shows "table_ok s1'"
    and "fst ` set (symbol_table s1') = fst ` set (symbol_table s1) - (if r then {return_key} else {})"
proof -
  show "table_ok s1'"
    using assms(1,2) set_delete_subset [of return_key "symbol_table s1"]
    by (auto simp: take_return_type_def table_ok_def distinct_delete
             split: option.splits if_splits)
  show "fst ` set (symbol_table s1') = fst ` set (symbol_table s1) - (if r then {return_key} else {})"
  proof (cases r)
    case True
    with assms(4) have "map_of (symbol_table s1) return_key \<noteq> None"
      by (simp add: key_not_in_table)
    then obtain ty where "map_of (symbol_table s1) return_key = Some ty"
      by blast
    with True assms(1,3)
    have "s1' = s1\<lparr>symbol_table := AList.delete return_key (symbol_table s1)\<rparr>"
      by (simp add: take_return_type_def)
    with True show ?thesis
      by (simp add: keys_delete)
  next
    case False
    with assms(1,3) show ?thesis
      by (simp add: take_return_type_def)
  qed
qed

lemma for_header_shape:
  assumes "generate_stmt (ForN ini cond upd b) i d t = Inr (txt, t')"
  shows "\<exists>b_cpp. generate_cpp b (i + 1) d t = Inr (b_cpp, t')
           \<and> txt = spaces (i * 4) @ ''for (''
                 @ (case ini of None \<Rightarrow> [] | Some (AssignNode var val) \<Rightarrow> var @ '' = '' @ val)
                 @ ''; '' @ (case cond of None \<Rightarrow> [] | Some c \<Rightarrow> c) @ ''; ''
                 @ (case upd of None \<Rightarrow> [] | Some (AssignNode var val) \<Rightarrow> var @ '' = '' @ val)
                 @ '') {\<newline>'' @ b_cpp @ spaces (i * 4) @ ''}\<newline>''"
  using assms
  by (auto simp: generate_for_cpp_def split: sum.splits option.splits assign_node.splits)

text \<open>
  The shape of every generated text: the preamble, the signature line in which each
  parameter stands with a type label, then the declaration lines, then the rendered
  statements, then the closing brace and the entry point. No name has two declaration
  lines, and a name has one if the parse recorded it (as an assignment target, as an
  identifier right-hand side, or as an operand of an expression or condition), it is not
  a parameter, and it is not the reserved key of a function that returns. The rendered
  statements are the same whatever the table holds, and a \<open>for\<close> line is made of
  \<open>var = value\<close>, the condition and \<open>var = value\<close> as the nodes carry them.
\<close>

lemma recorded_names_declared_once:
  assumes "parse_then_emit (Fn name params body) s = Inr (out, s')"
  shows "\<exists>ret_type parts vars ns body_cpp.
           out = header @ ret_type @ '' '' @ name @ ''('' @ join '', '' parts @ '') {\<newline>''
                   @ declarations 0 vars @ body_cpp @ ''}\<newline>\<newline>'' @ main_text name
           \<and> list_all2 (\<lambda>p part. \<exists>d \<in> set valid_dtypes. part = d @ '' '' @ p) params parts
           \<and> distinct (map fst vars)
           \<and> (\<forall>v. v \<in> names_of_body body \<and> v \<notin> set params
                  \<and> (returns_in_body body \<longrightarrow> v \<noteq> return_key) \<longrightarrow>
                  length (filter (\<lambda>p. fst p = v) vars) = 1)
           \<and> (\<forall>p \<in> set vars. snd p \<in> set valid_dtypes)
           \<and> outcome (parse_code (Fn name params body) s) = Inr [FunctionN name params ns ret_type]
           \<and> (\<forall>d t. generate_cpp ns 1 d t = Inr (body_cpp, t))
           \<and> (\<forall>ini cond upd b i d t txt t'.
                 generate_stmt (ForN ini cond upd b) i d t = Inr (txt, t') \<longrightarrow>
                 (\<exists>b_cpp. generate_cpp b (i + 1) d t = Inr (b_cpp, t')
                    \<and> txt = spaces (i * 4) @ ''for (''
                          @ (case ini of None \<Rightarrow> []
                             | Some (AssignNode var val) \<Rightarrow> var @ '' = '' @ val)
                          @ ''; '' @ (case cond of None \<Rightarrow> [] | Some c \<Rightarrow> c) @ ''; ''
                          @ (case upd of None \<Rightarrow> []
                             | Some (AssignNode var val) \<Rightarrow> var @ '' = '' @ val)
                          @ '') {\<newline>'' @ b_cpp @ spaces (i * 4) @ ''}\<newline>''))"
proof -
  let ?r = "s\<lparr>symbol_table := [], has_return := False\<rparr>"
  from assms obtain parsed s2 where pc: "parse_code (Fn name params body) s = Inr (parsed, s2)"
    and tc: "to_cpp parsed s2 = Inr (out, s')"
    by (auto simp: parse_then_emit_def split: sum.splits)
  from pc obtain ns s1 f where 1: "p_stmt_list body ?r = Inr (ns, s1)"
    and 2: "p_function name params ns s1 = Inr (f, s2)" and p: "parsed = [f]"
    by (auto simp: parse_code_def split: sum.splits)
  obtain rt s1' where t: "take_return_type s1 = (rt, s1')"
    by (cases "take_return_type s1")
  with 2 obtain u where ep: "ensure_params params s1' = Inr (u, s2)"
    and f: "f = FunctionN name params ns rt"
    by (auto simp: p_function_def split: sum.splits)
  note g = grows_from_reset [OF p_stmt_list_grows [OF 1]]
  have kr: "returns_in_body body \<longrightarrow> return_key \<in> fst ` set (symbol_table s1)"
    by (simp add: g(1))
  note te = take_return_type_effect [OF t g(3) g(2) kr]
  have k1: "fst ` set (symbol_table s1')
              = names_of_body body - (if returns_in_body body then {return_key} else {})"
    unfolding te(2) g(1) by auto
  from ensure_params_grows [OF ep] te(1)
  have ok2: "table_ok s2"
    and k2: "fst ` set (symbol_table s2) = fst ` set (symbol_table s1') \<union> set params"
    by (simp_all add: grows_def)
  from k2 have sub: "set params \<subseteq> fst ` set (symbol_table s2)" by simp
  from param_parts_typed [OF ok2 sub] obtain parts where
    pp: "param_parts params s2 = Inr (parts, s2)"
    and la: "list_all2 (\<lambda>p part. \<exists>d \<in> set valid_dtypes. part = d @ '' '' @ p) params parts"
    by blast
  obtain vars fd where cv: "collect_vars (symbol_table s2) (set params) = (vars, fd)"
    by (cases "collect_vars (symbol_table s2) (set params)")
  from ok2 have dk: "distinct (map fst (symbol_table s2))"
    and vt: "\<forall>p \<in> set (symbol_table s2). snd p \<in> set valid_dtypes"
    by (simp_all add: table_ok_def)
  from vt have ne: "\<forall>p \<in> set (symbol_table s2). snd p \<noteq> []"
    by (auto simp: valid_dtypes_def)
  from collect_vars_filter [OF dk ne, of "set params"] cv
  have vars: "vars = filter (\<lambda>p. fst p \<notin> set params) (symbol_table s2)"
    by simp
  have dv: "distinct (map fst vars)"
    unfolding vars by (rule distinct_map_filter [OF dk])
  have kv: "fst ` set vars = names_of_body body
              - (if returns_in_body body then {return_key} else {}) - set params"
  proof -
    have "fst ` set vars = fst ` set (symbol_table s2) - set params"
      unfolding vars by (rule keys_filter)
    also have "\<dots> = fst ` set (symbol_table s1') - set params"
      unfolding k2 by blast
    finally show ?thesis
      unfolding k1 .
  qed
  have cnt: "\<forall>v. length (filter (\<lambda>p. fst p = v) vars) =
               (if v \<in> names_of_body body \<and> v \<notin> set params
                   \<and> (returns_in_body body \<longrightarrow> v \<noteq> return_key) then 1 else 0)"
    unfolding count_distinct_keys [OF dv] kv by auto
  have vv: "\<forall>p \<in> set vars. snd p \<in> set valid_dtypes"
    unfolding vars using vt by simp
  from generate_cpp_pure [OF p_stmt_list_function_free [OF 1], of 1]
  obtain body_cpp where bc: "\<And>d t. generate_cpp ns 1 d t = Inr (body_cpp, t)"
    by auto
  from tc have out: "out = header @ rt @ '' '' @ name @ ''('' @ join '', '' parts @ '') {\<newline>''
                   @ declarations 0 vars @ body_cpp @ ''}\<newline>\<newline>'' @ main_text name"
    using bc [of fd s2] by (simp add: to_cpp_def p f pp cv)
  have oc: "outcome (parse_code (Fn name params body) s) = Inr [FunctionN name params ns rt]"
    by (simp add: pc p f outcome_def)
  from cnt have one: "\<forall>v. v \<in> names_of_body body \<and> v \<notin> set params
                  \<and> (returns_in_body body \<longrightarrow> v \<noteq> return_key) \<longrightarrow>
                  length (filter (\<lambda>p. fst p = v) vars) = 1"
    by simp
  from out la dv one vv oc bc for_header_shape show ?thesis
    by blast
qed

lemma str_int_0: "str_int 0 = ''0''"
  by code_simp

lemma return_only_example_output:
  "outcome (parse_then_emit return_only_example
              (register_type_provider (Some int_provider) initial_state))
     = Inr ''#include <bits/stdc++.h>\<newline>using namespace std;\<newline>\<newline>int f() {\<newline>    return y;\<newline>}\<newline>\<newline>int main() {\<newline>    f();\<newline>    return 0;\<newline>}\<newline>''"
  by (simp add: outcome_def parse_then_emit_def parse_code_def return_only_example_def
      initial_state_def p_statement_return_def
      startswith_def endswith_def squote_def dquote_def return_key_def ask_type_def
      register_type_provider_def int_provider_def strip_int valid_dtypes_def
      p_function_def take_return_type_def to_cpp_def declarations_def declaration_line_def
      spaces_4 header_def main_text_def Let_def)

lemma return_sum_example_output:
  "outcome (parse_then_emit return_sum_example
              (register_type_provider (Some int_provider) initial_state))
     = Inr ''#include <bits/stdc++.h>\<newline>using namespace std;\<newline>\<newline>int f() {\<newline>    int y;\<newline>\<newline>    return y + 0;\<newline>}\<newline>\<newline>int main() {\<newline>    f();\<newline>    return 0;\<newline>}\<newline>''"
  by (simp add: outcome_def parse_then_emit_def parse_code_def return_sum_example_def
      initial_state_def p_statement_return_def
      startswith_def endswith_def squote_def dquote_def return_key_def ask_type_def
      register_type_provider_def int_provider_def strip_int valid_dtypes_def
      p_function_def take_return_type_def to_cpp_def declarations_def declaration_line_def
      spaces_4 header_def main_text_def str_int_0 Let_def)

text \<open>
  C4, on \<open>fn f() { return y; }\<close> with the provider answering \<open>int\<close>: the body uses \<open>y\<close>,
  and the generated text returns \<open>y\<close> with no declaration line for it. The statement is
  reduced by \<open>RETURN ID SEMICOLON\<close>, whose action records no name. On
  \<open>fn f() { return y + 0; }\<close> the operand is recorded by \<open>p_factor_id\<close> and the text has
  the one line \<open>int y;\<close>.
\<close>

theorem returned_identifier_not_declared:
  "(case outcome (parse_then_emit return_only_example
                    (register_type_provider (Some int_provider) initial_state)) of
      Inl e \<Rightarrow> False
    | Inr out \<Rightarrow>
        out = ''#include <bits/stdc++.h>\<newline>using namespace std;\<newline>\<newline>int f() {\<newline>    return y;\<newline>}\<newline>\<newline>int main() {\<newline>    f();\<newline>    return 0;\<newline>}\<newline>''
        \<and> declaration_lines_of ''y'' out = []) \<and>
   (case outcome (parse_then_emit return_sum_example
                    (register_type_provider (Some int_provider) initial_state)) of
      Inl e \<Rightarrow> False
    | Inr out \<Rightarrow> declaration_lines_of ''y'' out = [''    int y;''])"
  by (simp add: return_only_example_output return_sum_example_output declaration_lines_of_def
      valid_dtypes_def spaces_4)

end
